theory Spec2Isabelle
  imports Main "HOL-Library.Word"
begin

unbundle bit_operations_syntax

section \<open>Machine integers and byte order\<close>

text \<open>
  The fixed-width unsigned types of \<^verbatim>\<open>stdint.h\<close> that \<^verbatim>\<open>src/usb.c\<close> uses.
\<close>

type_synonym u8 = "8 word"
type_synonym u16 = "16 word"
type_synonym u32 = "32 word"

text \<open>
  The byte order of the host the program is compiled for. \<^verbatim>\<open>endian.h\<close> selects
  the meaning of \<^verbatim>\<open>be32toh\<close> and \<^verbatim>\<open>le16toh\<close> by it, so every function that
  touches a multi-byte field takes it as its first argument.
\<close>

datatype endian = LittleEndian | BigEndian

text \<open>The byte swaps of \<^verbatim>\<open>byteswap.h\<close>, written with masks and shifts as there.\<close>

definition bswap_16 :: "u16 \<Rightarrow> u16" where
  "bswap_16 x = (drop_bit 8 x AND 0xff) OR push_bit 8 (x AND 0xff)"

definition bswap_32 :: "u32 \<Rightarrow> u32" where
  "bswap_32 x = drop_bit 24 (x AND 0xff000000) OR drop_bit 8 (x AND 0x00ff0000)
              OR push_bit 8 (x AND 0x0000ff00) OR push_bit 24 (x AND 0x000000ff)"

definition be32toh :: "endian \<Rightarrow> u32 \<Rightarrow> u32" where
  "be32toh h x = (case h of BigEndian \<Rightarrow> x | LittleEndian \<Rightarrow> bswap_32 x)"

definition le16toh :: "endian \<Rightarrow> u16 \<Rightarrow> u16" where
  "le16toh h x = (case h of LittleEndian \<Rightarrow> x | BigEndian \<Rightarrow> bswap_16 x)"

definition htobe32 :: "endian \<Rightarrow> u32 \<Rightarrow> u32" where
  "htobe32 h x = (case h of BigEndian \<Rightarrow> x | LittleEndian \<Rightarrow> bswap_32 x)"

definition htole16 :: "endian \<Rightarrow> u16 \<Rightarrow> u16" where
  "htole16 h x = (case h of LittleEndian \<Rightarrow> x | BigEndian \<Rightarrow> bswap_16 x)"

text \<open>A word from its bytes, most significant first, and the bytes of a word.\<close>

definition word32 :: "u8 \<Rightarrow> u8 \<Rightarrow> u8 \<Rightarrow> u8 \<Rightarrow> u32" where
  "word32 b3 b2 b1 b0 =
     push_bit 24 (ucast b3) OR push_bit 16 (ucast b2) OR push_bit 8 (ucast b1) OR ucast b0"

definition word16 :: "u8 \<Rightarrow> u8 \<Rightarrow> u16" where
  "word16 b1 b0 = push_bit 8 (ucast b1) OR ucast b0"

definition byte32 :: "nat \<Rightarrow> u32 \<Rightarrow> u8" where
  "byte32 k w = ucast (drop_bit (8 * k) w)"

definition byte16 :: "nat \<Rightarrow> u16 \<Rightarrow> u8" where
  "byte16 k w = ucast (drop_bit (8 * k) w)"


section \<open>The frame: \<^verbatim>\<open>struct usbip\<close> as the bytes it occupies\<close>

text \<open>
  \<^verbatim>\<open>struct usbip\<close> is packed and holds a union of the four payloads, so the same
  bytes are read under several field names. The model is the object's memory itself: the
  list of its bytes, a field being an offset into it. A frame the program works on has
  \<open>sizeof_usbip\<close> bytes.
\<close>

type_synonym usbip = "u8 list"

definition sizeof_usbip :: nat where
  "sizeof_usbip = 65536"

text \<open>Offsets of the fields in the packed layout.\<close>

definition off_command :: nat where [simp]: "off_command = 0"
definition off_seqnum :: nat where [simp]: "off_seqnum = 4"
definition off_devid :: nat where [simp]: "off_devid = 8"
definition off_direction :: nat where [simp]: "off_direction = 12"
definition off_endpoint :: nat where [simp]: "off_endpoint = 16"

definition off_cmd_submit_transfer_flags :: nat where [simp]: "off_cmd_submit_transfer_flags = 20"
definition off_cmd_submit_transfer_buffer_length :: nat where
  [simp]: "off_cmd_submit_transfer_buffer_length = 24"
definition off_cmd_submit_start_frame :: nat where [simp]: "off_cmd_submit_start_frame = 28"
definition off_cmd_submit_number_of_packets :: nat where
  [simp]: "off_cmd_submit_number_of_packets = 32"
definition off_cmd_submit_interval :: nat where [simp]: "off_cmd_submit_interval = 36"
definition off_cmd_submit_setup_bmRequestType :: nat where
  [simp]: "off_cmd_submit_setup_bmRequestType = 40"
definition off_cmd_submit_setup_bRequest :: nat where [simp]: "off_cmd_submit_setup_bRequest = 41"
definition off_cmd_submit_setup_wValue :: nat where [simp]: "off_cmd_submit_setup_wValue = 42"
definition off_cmd_submit_setup_wIndex :: nat where [simp]: "off_cmd_submit_setup_wIndex = 44"
definition off_cmd_submit_setup_wLength :: nat where [simp]: "off_cmd_submit_setup_wLength = 46"
definition off_cmd_submit_data :: nat where [simp]: "off_cmd_submit_data = 48"

definition off_cmd_unlink_seqnum :: nat where [simp]: "off_cmd_unlink_seqnum = 20"

definition off_ret_submit_status :: nat where [simp]: "off_ret_submit_status = 20"
definition off_ret_submit_actual_length :: nat where [simp]: "off_ret_submit_actual_length = 24"
definition off_ret_submit_start_frame :: nat where [simp]: "off_ret_submit_start_frame = 28"
definition off_ret_submit_number_of_packets :: nat where
  [simp]: "off_ret_submit_number_of_packets = 32"
definition off_ret_submit_error_count :: nat where [simp]: "off_ret_submit_error_count = 36"
definition off_ret_submit_setup_bmRequestType :: nat where
  [simp]: "off_ret_submit_setup_bmRequestType = 40"
definition off_ret_submit_setup_bRequest :: nat where [simp]: "off_ret_submit_setup_bRequest = 41"
definition off_ret_submit_setup_wValue :: nat where [simp]: "off_ret_submit_setup_wValue = 42"
definition off_ret_submit_setup_wIndex :: nat where [simp]: "off_ret_submit_setup_wIndex = 44"
definition off_ret_submit_setup_wLength :: nat where [simp]: "off_ret_submit_setup_wLength = 46"
definition off_ret_submit_data :: nat where [simp]: "off_ret_submit_data = 48"

definition off_ret_unlink_status :: nat where [simp]: "off_ret_unlink_status = 20"

definition off_padding :: nat where [simp]: "off_padding = 48"

text \<open>
  Reading and writing a field in the host's byte order, as an access through the struct
  does. All offsets used by the program are constants inside the frame; a write outside
  the list would change nothing.
\<close>

definition load32 :: "endian \<Rightarrow> usbip \<Rightarrow> nat \<Rightarrow> u32" where
  "load32 h u off = (case h of
       BigEndian \<Rightarrow> word32 (u ! off) (u ! (off + 1)) (u ! (off + 2)) (u ! (off + 3))
     | LittleEndian \<Rightarrow> word32 (u ! (off + 3)) (u ! (off + 2)) (u ! (off + 1)) (u ! off))"

definition store32 :: "endian \<Rightarrow> usbip \<Rightarrow> nat \<Rightarrow> u32 \<Rightarrow> usbip" where
  "store32 h u off v = (case h of
       BigEndian \<Rightarrow>
         u[off := byte32 3 v, off + 1 := byte32 2 v, off + 2 := byte32 1 v, off + 3 := byte32 0 v]
     | LittleEndian \<Rightarrow>
         u[off := byte32 0 v, off + 1 := byte32 1 v, off + 2 := byte32 2 v, off + 3 := byte32 3 v])"

definition load16 :: "endian \<Rightarrow> usbip \<Rightarrow> nat \<Rightarrow> u16" where
  "load16 h u off = (case h of
       BigEndian \<Rightarrow> word16 (u ! off) (u ! (off + 1))
     | LittleEndian \<Rightarrow> word16 (u ! (off + 1)) (u ! off))"

definition store16 :: "endian \<Rightarrow> usbip \<Rightarrow> nat \<Rightarrow> u16 \<Rightarrow> usbip" where
  "store16 h u off v = (case h of
       BigEndian \<Rightarrow> u[off := byte16 1 v, off + 1 := byte16 0 v]
     | LittleEndian \<Rightarrow> u[off := byte16 0 v, off + 1 := byte16 1 v])"

text \<open>
  What the bytes at an offset mean on the wire, whatever the host: big-endian for 32-bit
  fields, little-endian for the 16-bit fields of the setup packet.
\<close>

definition be32_at :: "usbip \<Rightarrow> nat \<Rightarrow> u32" where
  "be32_at u off = word32 (u ! off) (u ! (off + 1)) (u ! (off + 2)) (u ! (off + 3))"

definition le16_at :: "usbip \<Rightarrow> nat \<Rightarrow> u16" where
  "le16_at u off = word16 (u ! (off + 1)) (u ! off)"


section \<open>Constants\<close>

definition USBIP_CMD_SUBMIT :: u32 where "USBIP_CMD_SUBMIT = 1"
definition USBIP_CMD_UNLINK :: u32 where "USBIP_CMD_UNLINK = 2"
definition USBIP_RET_SUBMIT :: u32 where "USBIP_RET_SUBMIT = 3"
definition USBIP_RET_UNLINK :: u32 where "USBIP_RET_UNLINK = 4"

text \<open>The one error code the program returns (\<^verbatim>\<open>errno.h\<close>).\<close>

datatype errno = ENOTSUP


section \<open>Setup-byte decoding\<close>

text \<open>
  The macros are embedded with C's precedence: \<^verbatim>\<open>>>\<close> binds tighter than \<^verbatim>\<open>&\<close>, so
  \<^verbatim>\<open>(rt) & 0b10000000 >> 7\<close> is \<^verbatim>\<open>rt & (0b10000000 >> 7)\<close>. The operand is promoted
  to \<^verbatim>\<open>int\<close>.
\<close>

definition SETUP_DIR :: "u8 \<Rightarrow> int" where
  "SETUP_DIR rt = uint rt AND drop_bit 7 0x80"

definition SETUP_TYP :: "u8 \<Rightarrow> int" where
  "SETUP_TYP rt = uint rt AND drop_bit 5 0x60"

definition SETUP_RCP :: "u8 \<Rightarrow> int" where
  "SETUP_RCP rt = uint rt AND drop_bit 0 0x1f"

definition usbip_setup_dir_str :: "u8 \<Rightarrow> string" where
  "usbip_setup_dir_str rt = (if SETUP_DIR rt \<noteq> 0 then ''D2H'' else ''H2D'')"

definition usbip_setup_typ_str :: "u8 \<Rightarrow> string" where
  "usbip_setup_typ_str rt =
     (let v = SETUP_TYP rt in
      if v = 0 then ''standard''
      else if v = 1 then ''class''
      else if v = 2 then ''vendor''
      else ''<reserved>'')"

definition usbip_setup_rcp_str :: "u8 \<Rightarrow> string" where
  "usbip_setup_rcp_str rt =
     (let v = SETUP_RCP rt in
      if v = 0 then ''device''
      else if v = 1 then ''interface''
      else if v = 2 then ''endpoint''
      else if v = 3 then ''other''
      else ''<reserved>'')"

definition usbip_setup_req_str :: "u8 \<Rightarrow> string" where
  "usbip_setup_req_str req =
     (if req = 0 then ''GET_STATUS''
      else if req = 1 then ''CLEAR_FEATURE''
      else if req = 3 then ''SET_FEATURE''
      else if req = 5 then ''SET_ADDRESS''
      else if req = 6 then ''GET_DESCRIPTOR''
      else if req = 7 then ''SET_DESCRIPTOR''
      else if req = 8 then ''GET_CONFIGURATION''
      else if req = 9 then ''SET_CONFIGURATION''
      else if req = 10 then ''GET_INTERFACE''
      else if req = 11 then ''SET_INTERFACE''
      else if req = 12 then ''SYNCH_FRAME''
      else ''<reserved>'')"


section \<open>The normalizer \<^verbatim>\<open>usbip_ntoh\<close>\<close>

text \<open>
  One assignment of the form \<^verbatim>\<open>u->x = be32toh(u->x)\<close> or \<^verbatim>\<open>u->x = le16toh(u->x)\<close>:
  read the field, convert, write it back.
\<close>

definition be32toh_at :: "endian \<Rightarrow> nat \<Rightarrow> usbip \<Rightarrow> usbip" where
  "be32toh_at h off u = store32 h u off (be32toh h (load32 h u off))"

definition le16toh_at :: "endian \<Rightarrow> nat \<Rightarrow> usbip \<Rightarrow> usbip" where
  "le16toh_at h off u = store16 h u off (le16toh h (load16 h u off))"

text \<open>
  The function works in place and returns a status, so the model returns both: the status
  (\<open>Inr ()\<close> for 0, \<open>Inl ENOTSUP\<close> for the error) and the frame as the function leaves
  it.
\<close>

definition usbip_ntoh :: "endian \<Rightarrow> usbip \<Rightarrow> (errno + unit) \<times> usbip" where
  "usbip_ntoh h u0 =
    (let u1 = be32toh_at h off_command u0;
         u2 = be32toh_at h off_seqnum u1;
         u3 = be32toh_at h off_devid u2;
         u4 = be32toh_at h off_direction u3;
         u5 = be32toh_at h off_endpoint u4
     in
       if load32 h u5 off_command = USBIP_CMD_SUBMIT then
         (let s1 = be32toh_at h off_cmd_submit_transfer_flags u5;
              s2 = be32toh_at h off_cmd_submit_transfer_buffer_length s1;
              s3 = be32toh_at h off_cmd_submit_start_frame s2;
              s4 = be32toh_at h off_cmd_submit_number_of_packets s3;
              s5 = be32toh_at h off_cmd_submit_interval s4;
              s6 = le16toh_at h off_cmd_submit_setup_wValue s5;
              s7 = le16toh_at h off_cmd_submit_setup_wIndex s6;
              s8 = le16toh_at h off_cmd_submit_setup_wLength s7
          in (Inr (), s8))
       else if load32 h u5 off_command = USBIP_CMD_UNLINK then
         (Inr (), be32toh_at h off_cmd_unlink_seqnum u5)
       else if load32 h u5 off_command = USBIP_RET_SUBMIT then
         (let r1 = be32toh_at h off_ret_submit_status u5;
              r2 = be32toh_at h off_ret_submit_actual_length r1;
              r3 = be32toh_at h off_ret_submit_start_frame r2;
              r4 = be32toh_at h off_ret_submit_number_of_packets r3;
              r5 = be32toh_at h off_ret_submit_error_count r4;
              r6 = le16toh_at h off_ret_submit_setup_wValue r5;
              r7 = le16toh_at h off_ret_submit_setup_wIndex r6;
              r8 = le16toh_at h off_ret_submit_setup_wLength r7
          in (Inr (), r8))
       else if load32 h u5 off_command = USBIP_RET_UNLINK then
         (Inr (), be32toh_at h off_ret_unlink_status u5)
       else (Inl ENOTSUP, u5))"

text \<open>
  How \<^verbatim>\<open>main\<close> obtains the frame: the struct is zero-initialised and one datagram is
  received into it, at most \<open>sizeof_usbip\<close> bytes; the count \<^verbatim>\<open>recv\<close> returns is
  dropped.
\<close>

definition recv_usbip :: "u8 list \<Rightarrow> usbip" where
  "recv_usbip dgram = take sizeof_usbip dgram @ replicate (sizeof_usbip - length dgram) 0"


section \<open>The dumper \<^verbatim>\<open>usbip_dump\<close>\<close>

text \<open>
  The stream is the text written to it so far; \<^verbatim>\<open>fprintf\<close> appends. The conversions
  are those the format strings use: \<^verbatim>\<open>%u\<close>, \<^verbatim>\<open>%hu\<close> and \<^verbatim>\<open>%hhu\<close> print an unsigned
  value in decimal, \<^verbatim>\<open>%08X\<close> eight upper-case hexadecimal digits, \<^verbatim>\<open>%02x\<close> two
  lower-case ones.
\<close>

type_synonym FILE = string

definition fprintf :: "FILE \<Rightarrow> string \<Rightarrow> FILE" where
  "fprintf f s = f @ s"

definition digit_lower :: "nat \<Rightarrow> char" where
  "digit_lower d = ''0123456789abcdef'' ! d"

definition digit_upper :: "nat \<Rightarrow> char" where
  "digit_upper d = ''0123456789ABCDEF'' ! d"

fun fmt_u :: "nat \<Rightarrow> string" where
  "fmt_u n = (if n < 10 then [digit_lower n] else fmt_u (n div 10) @ [digit_lower (n mod 10)])"

declare fmt_u.simps [simp del]

definition fmt_08X :: "u32 \<Rightarrow> string" where
  "fmt_08X w = map (\<lambda>k. digit_upper (unat (drop_bit (4 * k) w) mod 16)) [7, 6, 5, 4, 3, 2, 1, 0]"

definition fmt_02x :: "u8 \<Rightarrow> string" where
  "fmt_02x b = [digit_lower (unat b div 16), digit_lower (unat b mod 16)]"

text \<open>
  The hex-dump loop \<^verbatim>\<open>for (size_t i = 0; i < n; i++)\<close> over \<^verbatim>\<open>data[i]\<close>, the byte at
  offset 48 + i of the frame. The loop has no bound but the declared length \<open>n\<close>. A read at
  or beyond the end of the object is undefined in C: the model stops there with \<open>None\<close>.
\<close>

function dump_data :: "usbip \<Rightarrow> nat \<Rightarrow> nat \<Rightarrow> FILE \<Rightarrow> FILE option" where
  "dump_data u n i f =
     (if i < n then
        (if off_cmd_submit_data + i < length u then
           dump_data u n (Suc i)
             (fprintf f ((if i mod 32 = 0 then ''\<newline>    '' else '''')
                         @ fmt_02x (u ! (off_cmd_submit_data + i))))
         else None)
      else Some f)"
  by pat_completeness auto
termination
  by (relation "measure (\<lambda>(u, n, i, f). n - i)") auto

declare dump_data.simps [simp del]

definition usbip_dump :: "endian \<Rightarrow> usbip \<Rightarrow> FILE \<Rightarrow> FILE option" where
  "usbip_dump h u f0 =
    (let f1 = fprintf f0 ''{\<newline>'';
         f2 = fprintf f1 (''  .command = '' @ fmt_u (unat (load32 h u off_command)) @ ''\<newline>'');
         f3 = fprintf f2 (''  .seqnum = '' @ fmt_u (unat (load32 h u off_seqnum)) @ ''\<newline>'');
         f4 = fprintf f3 (''  .devid = '' @ fmt_u (unat (load32 h u off_devid)) @ ''\<newline>'');
         f5 = fprintf f4
                (''  .direction = '' @ fmt_u (unat (load32 h u off_direction)) @ ''\<newline>'');
         f6 = fprintf f5
                (''  .endpoint = '' @ fmt_u (unat (load32 h u off_endpoint)) @ ''\<newline>'')
     in
       if load32 h u off_command = USBIP_CMD_SUBMIT then
         (let g1 = fprintf f6 (''  .cmd.submit.transfer_flags = 0x''
                      @ fmt_08X (load32 h u off_cmd_submit_transfer_flags) @ ''\<newline>'');
              g2 = fprintf g1 (''  .cmd.submit.transfer_buffer_length = ''
                      @ fmt_u (unat (load32 h u off_cmd_submit_transfer_buffer_length))
                      @ ''\<newline>'');
              g3 = fprintf g2 (''  .cmd.submit.start_frame = ''
                      @ fmt_u (unat (load32 h u off_cmd_submit_start_frame)) @ ''\<newline>'');
              g4 = fprintf g3 (''  .cmd.submit.number_of_packets = ''
                      @ fmt_u (unat (load32 h u off_cmd_submit_number_of_packets)) @ ''\<newline>'');
              g5 = fprintf g4 (''  .cmd.submit.interval = ''
                      @ fmt_u (unat (load32 h u off_cmd_submit_interval)) @ ''\<newline>'');
              g6 = fprintf g5 (''  .cmd.submit.setup.direction = ''
                      @ usbip_setup_dir_str (u ! off_cmd_submit_setup_bmRequestType)
                      @ ''\<newline>'');
              g7 = fprintf g6 (''  .cmd.submit.setup.type = ''
                      @ usbip_setup_typ_str (u ! off_cmd_submit_setup_bmRequestType)
                      @ ''\<newline>'');
              g8 = fprintf g7 (''  .cmd.submit.setup.recipient = ''
                      @ usbip_setup_rcp_str (u ! off_cmd_submit_setup_bmRequestType)
                      @ ''\<newline>'');
              g9 = fprintf g8 (''  .cmd.submit.setup.bRequest = ''
                      @ usbip_setup_req_str (u ! off_cmd_submit_setup_bRequest) @ ''\<newline>'');
              g10 = fprintf g9 (''  .cmd.submit.setup.wValue = ''
                      @ fmt_u (unat (load16 h u off_cmd_submit_setup_wValue)) @ ''\<newline>'');
              g11 = fprintf g10 (''  .cmd.submit.setup.wIndex = ''
                      @ fmt_u (unat (load16 h u off_cmd_submit_setup_wIndex)) @ ''\<newline>'');
              g12 = fprintf g11 (''  .cmd.submit.setup.wLength = ''
                      @ fmt_u (unat (load16 h u off_cmd_submit_setup_wLength)) @ ''\<newline>'');
              g13 = fprintf g12 ''  .cmd.submit.data[] = {''
          in case dump_data u (unat (load32 h u off_cmd_submit_transfer_buffer_length)) 0 g13 of
               None \<Rightarrow> None
             | Some g14 \<Rightarrow> Some (fprintf (fprintf g14 ''\<newline>  }\<newline>'') ''}\<newline>''))
       else if load32 h u off_command = USBIP_CMD_UNLINK then
         Some (fprintf
                 (fprintf f6 (''  .cmd.unlink.seqnum = ''
                    @ fmt_u (unat (load32 h u off_cmd_unlink_seqnum)) @ ''\<newline>''))
                 ''}\<newline>'')
       else if load32 h u off_command = USBIP_RET_SUBMIT then
         (let r1 = fprintf f6 (''  .ret.submit.status = ''
                      @ fmt_u (unat (load32 h u off_ret_submit_status)) @ ''\<newline>'');
              r2 = fprintf r1 (''  .ret.submit.actual_length = ''
                      @ fmt_u (unat (load32 h u off_ret_submit_actual_length)) @ ''\<newline>'');
              r3 = fprintf r2 (''  .ret.submit.start_frame = ''
                      @ fmt_u (unat (load32 h u off_ret_submit_start_frame)) @ ''\<newline>'');
              r4 = fprintf r3 (''  .ret.submit.number_of_packets = ''
                      @ fmt_u (unat (load32 h u off_ret_submit_number_of_packets)) @ ''\<newline>'');
              r5 = fprintf r4 (''  .ret.submit.error_count = ''
                      @ fmt_u (unat (load32 h u off_ret_submit_error_count)) @ ''\<newline>'');
              r6 = fprintf r5 (''  .ret.submit.setup.bmRequestType = ''
                      @ fmt_u (unat (u ! off_ret_submit_setup_bmRequestType)) @ ''\<newline>'');
              r7 = fprintf r6 (''  .ret.submit.setup.bRequest = ''
                      @ fmt_u (unat (u ! off_ret_submit_setup_bRequest)) @ ''\<newline>'');
              r8 = fprintf r7 (''  .ret.submit.setup.wValue = ''
                      @ fmt_u (unat (load16 h u off_ret_submit_setup_wValue)) @ ''\<newline>'');
              r9 = fprintf r8 (''  .ret.submit.setup.wIndex = ''
                      @ fmt_u (unat (load16 h u off_ret_submit_setup_wIndex)) @ ''\<newline>'');
              r10 = fprintf r9 (''  .ret.submit.setup.wLength = ''
                      @ fmt_u (unat (load16 h u off_ret_submit_setup_wLength)) @ ''\<newline>'');
              r11 = fprintf r10 ''  .ret.submit.data[] = {''
          in case dump_data u (unat (load32 h u off_ret_submit_actual_length)) 0 r11 of
               None \<Rightarrow> None
             | Some r12 \<Rightarrow> Some (fprintf (fprintf r12 ''\<newline>  }\<newline>'') ''}\<newline>''))
       else if load32 h u off_command = USBIP_RET_UNLINK then
         Some (fprintf
                 (fprintf f6 (''  .ret.unlink.status = ''
                    @ fmt_u (unat (load32 h u off_ret_unlink_status)) @ ''\<newline>''))
                 ''}\<newline>'')
       else Some (fprintf f6 ''}\<newline>''))"


text \<open>
  What the loop writes when every read is inside the frame, as a function of the bytes
  read: used to state the output of \<open>dump_data\<close>, not part of the program.
\<close>

fun hex_lines :: "nat \<Rightarrow> u8 list \<Rightarrow> string" where
  "hex_lines i [] = []"
| "hex_lines i (b # bs) =
     (if i mod 32 = 0 then ''\<newline>    '' else '''') @ fmt_02x b @ hex_lines (Suc i) bs"


section \<open>The encoder of the specification\<close>

text \<open>
  Modelled from the spec: \<^verbatim>\<open>encode\<close> does not exist in \<^verbatim>\<open>src/usb.c\<close>, which only
  receives. The specification asks for the inverse of decoding, serialising a message
  "back into wire-order bytes using the same per-field byte-order rules in reverse"; its
  rule table gives big-endian for the header and the 32-bit payload fields and
  little-endian for the setup packet's value, index and length. A message is a frame in
  host order; the kind is read from it before the header is converted. The fields are
  taken in the opposite order to \<open>usbip_ntoh\<close>; they do not overlap, so the order has no
  effect on the bytes produced.
\<close>

definition htobe32_at :: "endian \<Rightarrow> nat \<Rightarrow> usbip \<Rightarrow> usbip" where
  "htobe32_at h off u = store32 h u off (htobe32 h (load32 h u off))"

definition htole16_at :: "endian \<Rightarrow> nat \<Rightarrow> usbip \<Rightarrow> usbip" where
  "htole16_at h off u = store16 h u off (htole16 h (load16 h u off))"

definition encode :: "endian \<Rightarrow> usbip \<Rightarrow> usbip" where
  "encode h m =
    (let p =
       (if load32 h m off_command = USBIP_CMD_SUBMIT then
          (let s8 = htole16_at h off_cmd_submit_setup_wLength m;
               s7 = htole16_at h off_cmd_submit_setup_wIndex s8;
               s6 = htole16_at h off_cmd_submit_setup_wValue s7;
               s5 = htobe32_at h off_cmd_submit_interval s6;
               s4 = htobe32_at h off_cmd_submit_number_of_packets s5;
               s3 = htobe32_at h off_cmd_submit_start_frame s4;
               s2 = htobe32_at h off_cmd_submit_transfer_buffer_length s3
           in htobe32_at h off_cmd_submit_transfer_flags s2)
        else if load32 h m off_command = USBIP_CMD_UNLINK then
          htobe32_at h off_cmd_unlink_seqnum m
        else if load32 h m off_command = USBIP_RET_SUBMIT then
          (let r8 = htole16_at h off_ret_submit_setup_wLength m;
               r7 = htole16_at h off_ret_submit_setup_wIndex r8;
               r6 = htole16_at h off_ret_submit_setup_wValue r7;
               r5 = htobe32_at h off_ret_submit_error_count r6;
               r4 = htobe32_at h off_ret_submit_number_of_packets r5;
               r3 = htobe32_at h off_ret_submit_start_frame r4;
               r2 = htobe32_at h off_ret_submit_actual_length r3
           in htobe32_at h off_ret_submit_status r2)
        else if load32 h m off_command = USBIP_RET_UNLINK then
          htobe32_at h off_ret_unlink_status m
        else m);
       e5 = htobe32_at h off_endpoint p;
       e4 = htobe32_at h off_direction e5;
       e3 = htobe32_at h off_devid e4;
       e2 = htobe32_at h off_seqnum e3
     in htobe32_at h off_command e2)"


section \<open>Example frames\<close>

text \<open>
  A submit command as it arrives: command \<^verbatim>\<open>00 00 00 01\<close>, transfer buffer length
  \<^verbatim>\<open>00 00 00 10\<close>, a GET_DESCRIPTOR setup packet with value bytes \<^verbatim>\<open>34 12\<close>, and
  sixteen bytes of data.
\<close>

definition wire_submit :: "u8 list" where
  "wire_submit =
     [0x00, 0x00, 0x00, 0x01,  0x00, 0x00, 0x00, 0x07,  0x00, 0x01, 0x00, 0x02,
      0x00, 0x00, 0x00, 0x01,  0x00, 0x00, 0x00, 0x00,
      0x00, 0x00, 0x02, 0x00,  0x00, 0x00, 0x00, 0x10,  0x00, 0x00, 0x00, 0x00,
      0x00, 0x00, 0x00, 0x00,  0x00, 0x00, 0x00, 0x00,
      0x80, 0x06, 0x34, 0x12, 0x00, 0x00, 0x10, 0x00,
      0x00, 0x01, 0x02, 0x03, 0x04, 0x05, 0x06, 0x07,
      0x08, 0x09, 0x0a, 0x0b, 0x0c, 0x0d, 0x0e, 0x0f]"

text \<open>An unlink command cancelling request 7, followed by bytes that are not zero.\<close>

definition wire_unlink :: "u8 list" where
  "wire_unlink =
     [0x00, 0x00, 0x00, 0x02,  0x00, 0x00, 0x00, 0x08,  0x00, 0x01, 0x00, 0x02,
      0x00, 0x00, 0x00, 0x00,  0x00, 0x00, 0x00, 0x00,
      0x00, 0x00, 0x00, 0x07,  0xde, 0xad, 0xbe, 0xef]"

text \<open>A header whose command code is 99.\<close>

definition wire_unknown :: "u8 list" where
  "wire_unknown =
     [0x00, 0x00, 0x00, 0x63,  0x00, 0x00, 0x00, 0x09,  0x00, 0x01, 0x00, 0x02,
      0x00, 0x00, 0x00, 0x00,  0x00, 0x00, 0x00, 0x00,
      0x11, 0x22, 0x33, 0x44]"

text \<open>
  A submit reply that declares an actual length of 64 and is followed by only ten bytes of
  data: a datagram of 58 bytes.
\<close>

definition wire_short_reply :: "u8 list" where
  "wire_short_reply =
     [0x00, 0x00, 0x00, 0x03,  0x00, 0x00, 0x00, 0x07,  0x00, 0x01, 0x00, 0x02,
      0x00, 0x00, 0x00, 0x00,  0x00, 0x00, 0x00, 0x00,
      0x00, 0x00, 0x00, 0x00,  0x00, 0x00, 0x00, 0x40,  0x00, 0x00, 0x00, 0x00,
      0x00, 0x00, 0x00, 0x00,  0x00, 0x00, 0x00, 0x00,
      0x00, 0x00, 0x00, 0x00, 0x00, 0x00, 0x00, 0x00,
      0xa0, 0xa1, 0xa2, 0xa3, 0xa4, 0xa5, 0xa6, 0xa7, 0xa8, 0xa9]"

text \<open>
  A submit reply in the memory of a little-endian host, built directly: command 3 and an
  actual length of 65489 (\<^verbatim>\<open>0xFFD1\<close>), one more than the 65488 bytes that follow the
  fixed fields in the frame.
\<close>

definition host_oversize_reply :: usbip where
  "host_oversize_reply =
     [0x03, 0x00, 0x00, 0x00,  0x07, 0x00, 0x00, 0x00,  0x02, 0x00, 0x01, 0x00,
      0x00, 0x00, 0x00, 0x00,  0x00, 0x00, 0x00, 0x00,
      0x00, 0x00, 0x00, 0x00,  0xd1, 0xff, 0x00, 0x00,  0x00, 0x00, 0x00, 0x00,
      0x00, 0x00, 0x00, 0x00,  0x00, 0x00, 0x00, 0x00,
      0x00, 0x00, 0x00, 0x00, 0x00, 0x00, 0x00, 0x00]
     @ replicate 65488 0"

text \<open>
  A submit reply in the memory of a little-endian host with an actual length of 3 and the
  data bytes \<^verbatim>\<open>ab cd ef\<close>.
\<close>

definition host_small_reply :: usbip where
  "host_small_reply =
     [0x03, 0x00, 0x00, 0x00,  0x07, 0x00, 0x00, 0x00,  0x02, 0x00, 0x01, 0x00,
      0x00, 0x00, 0x00, 0x00,  0x00, 0x00, 0x00, 0x00,
      0x00, 0x00, 0x00, 0x00,  0x03, 0x00, 0x00, 0x00,  0x00, 0x00, 0x00, 0x00,
      0x00, 0x00, 0x00, 0x00,  0x00, 0x00, 0x00, 0x00,
      0x00, 0x00, 0x00, 0x00, 0x00, 0x00, 0x00, 0x00,
      0xab, 0xcd, 0xef]
     @ replicate 65485 0"

text \<open>
  Two submit commands in the memory of a little-endian host: one with a transfer buffer
  length of 65489 (\<^verbatim>\<open>0xFFD1\<close>), one more than the bytes that follow the fixed fields,
  and one with a transfer buffer length of 2 and the data bytes \<^verbatim>\<open>01 02\<close>.
\<close>

definition host_oversize_submit :: usbip where
  "host_oversize_submit =
     [0x01, 0x00, 0x00, 0x00,  0x07, 0x00, 0x00, 0x00,  0x02, 0x00, 0x01, 0x00,
      0x01, 0x00, 0x00, 0x00,  0x00, 0x00, 0x00, 0x00,
      0x00, 0x00, 0x00, 0x00,  0xd1, 0xff, 0x00, 0x00,  0x00, 0x00, 0x00, 0x00,
      0x00, 0x00, 0x00, 0x00,  0x00, 0x00, 0x00, 0x00,
      0x00, 0x09, 0x01, 0x00, 0x00, 0x00, 0x00, 0x00]
     @ replicate 65488 0"

definition host_small_submit :: usbip where
  "host_small_submit =
     [0x01, 0x00, 0x00, 0x00,  0x07, 0x00, 0x00, 0x00,  0x02, 0x00, 0x01, 0x00,
      0x01, 0x00, 0x00, 0x00,  0x00, 0x00, 0x00, 0x00,
      0x00, 0x00, 0x00, 0x00,  0x02, 0x00, 0x00, 0x00,  0x00, 0x00, 0x00, 0x00,
      0x00, 0x00, 0x00, 0x00,  0x00, 0x00, 0x00, 0x00,
      0x00, 0x09, 0x01, 0x00, 0x00, 0x00, 0x00, 0x00,
      0x01, 0x02]
     @ replicate 65486 0"


section \<open>Auxiliary facts\<close>


subsection \<open>Words and their bytes\<close>

lemma bit_u8_bound: "bit (w :: u8) n \<Longrightarrow> n < 8"
  using bit_imp_le_length [of w n] by simp

lemma mask_bits_int:
  "bit (0xff000000 :: int) n \<longleftrightarrow> 24 \<le> n \<and> n < 32"
  "bit (0x00ff0000 :: int) n \<longleftrightarrow> 16 \<le> n \<and> n < 24"
  "bit (0x0000ff00 :: int) n \<longleftrightarrow> 8 \<le> n \<and> n < 16"
  "bit (0xff :: int) n \<longleftrightarrow> n < 8"
proof -
  have a: "(0xff000000 :: int) = push_bit 24 (mask 8)" by (simp add: mask_eq_exp_minus_1)
  have b: "(0x00ff0000 :: int) = push_bit 16 (mask 8)" by (simp add: mask_eq_exp_minus_1)
  have c: "(0x0000ff00 :: int) = push_bit 8 (mask 8)" by (simp add: mask_eq_exp_minus_1)
  have d: "(0xff :: int) = mask 8" by (simp add: mask_eq_exp_minus_1)
  show "bit (0xff000000 :: int) n \<longleftrightarrow> 24 \<le> n \<and> n < 32" unfolding a by (auto simp: bit_simps)
  show "bit (0x00ff0000 :: int) n \<longleftrightarrow> 16 \<le> n \<and> n < 24" unfolding b by (auto simp: bit_simps)
  show "bit (0x0000ff00 :: int) n \<longleftrightarrow> 8 \<le> n \<and> n < 16" unfolding c by (auto simp: bit_simps)
  show "bit (0xff :: int) n \<longleftrightarrow> n < 8" unfolding d by (auto simp: bit_simps)
qed

lemma byte32_word32 [simp]:
  "byte32 0 (word32 a b c d) = d" "byte32 (Suc 0) (word32 a b c d) = c"
  "byte32 2 (word32 a b c d) = b" "byte32 3 (word32 a b c d) = a"
  by (rule bit_word_eqI; auto simp: byte32_def word32_def bit_simps dest: bit_u8_bound)+

lemma word32_bytes [simp]:
  "word32 (byte32 3 w) (byte32 2 w) (byte32 (Suc 0) w) (byte32 0 w) = w"
proof (rule bit_word_eqI)
  fix n assume n: "n < LENGTH(32)"
  consider "n < 8" | "8 \<le> n" "n < 16" | "16 \<le> n" "n < 24" | "24 \<le> n" "n < 32"
    using n by fastforce
  then show "bit (word32 (byte32 3 w) (byte32 2 w) (byte32 (Suc 0) w) (byte32 0 w)) n = bit w n"
  proof cases
    case 1 then show ?thesis by (auto simp: byte32_def word32_def bit_simps)
  next
    case 2 then show ?thesis by (auto simp: byte32_def word32_def bit_simps)
  next
    case 3 then show ?thesis by (auto simp: byte32_def word32_def bit_simps)
  next
    case 4 then show ?thesis by (auto simp: byte32_def word32_def bit_simps)
  qed
qed

lemma bswap_32_word32: "bswap_32 (word32 a b c d) = word32 d c b a"
proof (rule bit_word_eqI)
  fix n assume n: "n < LENGTH(32)"
  consider "n < 8" | "8 \<le> n" "n < 16" | "16 \<le> n" "n < 24" | "24 \<le> n" "n < 32"
    using n by fastforce
  then show "bit (bswap_32 (word32 a b c d)) n = bit (word32 d c b a) n"
  proof cases
    case 1 then show ?thesis
      by (auto simp: bswap_32_def word32_def bit_simps mask_bits_int dest: bit_u8_bound)
  next
    case 2 then show ?thesis
      by (auto simp: bswap_32_def word32_def bit_simps mask_bits_int dest: bit_u8_bound)
  next
    case 3 then show ?thesis
      by (auto simp: bswap_32_def word32_def bit_simps mask_bits_int dest: bit_u8_bound)
  next
    case 4 then show ?thesis
      by (auto simp: bswap_32_def word32_def bit_simps mask_bits_int dest: bit_u8_bound)
  qed
qed

lemma byte16_word16 [simp]:
  "byte16 0 (word16 a b) = b" "byte16 (Suc 0) (word16 a b) = a"
  by (rule bit_word_eqI; auto simp: byte16_def word16_def bit_simps dest: bit_u8_bound)+

lemma word16_bytes [simp]: "word16 (byte16 (Suc 0) w) (byte16 0 w) = w"
proof (rule bit_word_eqI)
  fix n assume n: "n < LENGTH(16)"
  consider "n < 8" | "8 \<le> n" "n < 16" using n by fastforce
  then show "bit (word16 (byte16 (Suc 0) w) (byte16 0 w)) n = bit w n"
  proof cases
    case 1 then show ?thesis by (auto simp: byte16_def word16_def bit_simps)
  next
    case 2 then show ?thesis by (auto simp: byte16_def word16_def bit_simps)
  qed
qed

lemma bswap_16_word16: "bswap_16 (word16 a b) = word16 b a"
proof (rule bit_word_eqI)
  fix n assume n: "n < LENGTH(16)"
  consider "n < 8" | "8 \<le> n" "n < 16" using n by fastforce
  then show "bit (bswap_16 (word16 a b)) n = bit (word16 b a) n"
  proof cases
    case 1 then show ?thesis
      by (auto simp: bswap_16_def word16_def bit_simps mask_bits_int dest: bit_u8_bound)
  next
    case 2 then show ?thesis
      by (auto simp: bswap_16_def word16_def bit_simps mask_bits_int dest: bit_u8_bound)
  qed
qed

lemma bswap_32_involution: "bswap_32 (bswap_32 x) = x"
proof -
  have "bswap_32 (bswap_32 (word32 (byte32 3 x) (byte32 2 x) (byte32 (Suc 0) x) (byte32 0 x)))
        = word32 (byte32 3 x) (byte32 2 x) (byte32 (Suc 0) x) (byte32 0 x)"
    by (simp only: bswap_32_word32)
  then show ?thesis by simp
qed

lemma bswap_16_involution: "bswap_16 (bswap_16 x) = x"
proof -
  have "bswap_16 (bswap_16 (word16 (byte16 (Suc 0) x) (byte16 0 x)))
        = word16 (byte16 (Suc 0) x) (byte16 0 x)"
    by (simp only: bswap_16_word16)
  then show ?thesis by simp
qed

lemma be32toh_htobe32 [simp]: "be32toh h (htobe32 h x) = x"
  by (cases h) (simp_all add: be32toh_def htobe32_def bswap_32_involution)

lemma le16toh_htole16 [simp]: "le16toh h (htole16 h x) = x"
  by (cases h) (simp_all add: le16toh_def htole16_def bswap_16_involution)

subsection \<open>Loads and stores\<close>

lemma length_store32 [simp]: "length (store32 h u off v) = length u"
  by (cases h) (simp_all add: store32_def)

lemma length_store16 [simp]: "length (store16 h u off v) = length u"
  by (cases h) (simp_all add: store16_def)

lemma nth_store32_other: "i < off \<or> off + 4 \<le> i \<Longrightarrow> store32 h u off v ! i = u ! i"
  by (cases h) (auto simp: store32_def)

lemma nth_store16_other: "i < off \<or> off + 2 \<le> i \<Longrightarrow> store16 h u off v ! i = u ! i"
  by (cases h) (auto simp: store16_def)

lemma load32_store32_same: "off + 4 \<le> length u \<Longrightarrow> load32 h (store32 h u off v) off = v"
  by (cases h) (simp_all add: load32_def store32_def)

lemma load16_store16_same: "off + 2 \<le> length u \<Longrightarrow> load16 h (store16 h u off v) off = v"
  by (cases h) (simp_all add: load16_def store16_def)

lemma store32_store32_same: "store32 h (store32 h u off a) off b = store32 h u off b"
  by (cases h) (simp_all add: store32_def list_update_swap)

lemma store16_store16_same: "store16 h (store16 h u off a) off b = store16 h u off b"
  by (cases h) (simp_all add: store16_def list_update_swap)

lemma store32_load32_id: "store32 h u off (load32 h u off) = u"
  by (cases h) (simp_all add: store32_def load32_def)

lemma store16_load16_id: "store16 h u off (load16 h u off) = u"
  by (cases h) (simp_all add: store16_def load16_def)

lemma be32toh_load32: "be32toh h (load32 h u off) = be32_at u off"
  by (cases h) (simp_all add: be32toh_def load32_def be32_at_def bswap_32_word32)

lemma le16toh_load16: "le16toh h (load16 h u off) = le16_at u off"
  by (cases h) (simp_all add: le16toh_def load16_def le16_at_def bswap_16_word16)



subsection \<open>One converted field\<close>

lemma length_be32toh_at [simp]: "length (be32toh_at h off u) = length u"
  by (simp add: be32toh_at_def)

lemma length_le16toh_at [simp]: "length (le16toh_at h off u) = length u"
  by (simp add: le16toh_at_def)

lemma nth_be32toh_at_other: "i < off \<or> off + 4 \<le> i \<Longrightarrow> be32toh_at h off u ! i = u ! i"
  by (simp add: be32toh_at_def nth_store32_other)

lemma nth_le16toh_at_other: "i < off \<or> off + 2 \<le> i \<Longrightarrow> le16toh_at h off u ! i = u ! i"
  by (simp add: le16toh_at_def nth_store16_other)

lemma load32_be32toh_at_same:
  "off + 4 \<le> length u \<Longrightarrow> load32 h (be32toh_at h off u) off = be32_at u off"
  by (simp add: be32toh_at_def load32_store32_same be32toh_load32)

lemma load16_le16toh_at_same:
  "off + 2 \<le> length u \<Longrightarrow> load16 h (le16toh_at h off u) off = le16_at u off"
  by (simp add: le16toh_at_def load16_store16_same le16toh_load16)

lemma load32_be32toh_at_other:
  "off' + 4 \<le> off \<or> off + 4 \<le> off' \<Longrightarrow> load32 h (be32toh_at h off u) off' = load32 h u off'"
  by (cases h) (auto simp: load32_def nth_be32toh_at_other)

lemma load32_le16toh_at_other:
  "off' + 4 \<le> off \<or> off + 2 \<le> off' \<Longrightarrow> load32 h (le16toh_at h off u) off' = load32 h u off'"
  by (cases h) (auto simp: load32_def nth_le16toh_at_other)

lemma load16_be32toh_at_other:
  "off' + 2 \<le> off \<or> off + 4 \<le> off' \<Longrightarrow> load16 h (be32toh_at h off u) off' = load16 h u off'"
  by (cases h) (auto simp: load16_def nth_be32toh_at_other)

lemma load16_le16toh_at_other:
  "off' + 2 \<le> off \<or> off + 2 \<le> off' \<Longrightarrow> load16 h (le16toh_at h off u) off' = load16 h u off'"
  by (cases h) (auto simp: load16_def nth_le16toh_at_other)

lemma be32_at_be32toh_at_other:
  "off' + 4 \<le> off \<or> off + 4 \<le> off' \<Longrightarrow> be32_at (be32toh_at h off u) off' = be32_at u off'"
  by (auto simp: be32_at_def nth_be32toh_at_other)

lemma be32_at_le16toh_at_other:
  "off' + 4 \<le> off \<or> off + 2 \<le> off' \<Longrightarrow> be32_at (le16toh_at h off u) off' = be32_at u off'"
  by (auto simp: be32_at_def nth_le16toh_at_other)

lemma le16_at_be32toh_at_other:
  "off' + 2 \<le> off \<or> off + 4 \<le> off' \<Longrightarrow> le16_at (be32toh_at h off u) off' = le16_at u off'"
  by (auto simp: le16_at_def nth_be32toh_at_other)

lemma le16_at_le16toh_at_other:
  "off' + 2 \<le> off \<or> off + 2 \<le> off' \<Longrightarrow> le16_at (le16toh_at h off u) off' = le16_at u off'"
  by (auto simp: le16_at_def nth_le16toh_at_other)

lemmas field_simps_at =
  load32_be32toh_at_same load16_le16toh_at_same
  load32_be32toh_at_other load32_le16toh_at_other
  load16_be32toh_at_other load16_le16toh_at_other
  be32_at_be32toh_at_other be32_at_le16toh_at_other
  le16_at_be32toh_at_other le16_at_le16toh_at_other
  nth_be32toh_at_other nth_le16toh_at_other

subsection \<open>The normalizer\<close>

lemma ntoh_status:
  assumes "length u = sizeof_usbip"
  shows "fst (usbip_ntoh h u) =
     (if be32_at u off_command \<in> {USBIP_CMD_SUBMIT, USBIP_CMD_UNLINK, USBIP_RET_SUBMIT, USBIP_RET_UNLINK}
      then Inr () else Inl ENOTSUP)"
  using assms by (simp add: usbip_ntoh_def Let_def sizeof_usbip_def field_simps_at)

lemma ntoh_length [simp]: "length (snd (usbip_ntoh h u)) = length u"
  by (simp add: usbip_ntoh_def Let_def)

lemma ntoh_header:
  assumes "length u = sizeof_usbip"
  shows "load32 h (snd (usbip_ntoh h u)) off_command = be32_at u off_command"
    and "load32 h (snd (usbip_ntoh h u)) off_seqnum = be32_at u off_seqnum"
    and "load32 h (snd (usbip_ntoh h u)) off_devid = be32_at u off_devid"
    and "load32 h (snd (usbip_ntoh h u)) off_direction = be32_at u off_direction"
    and "load32 h (snd (usbip_ntoh h u)) off_endpoint = be32_at u off_endpoint"
  using assms by (simp_all add: usbip_ntoh_def Let_def sizeof_usbip_def field_simps_at)



lemma ntoh_cmd_submit:
  assumes "length u = sizeof_usbip" and "be32_at u off_command = USBIP_CMD_SUBMIT"
  shows "load32 h (snd (usbip_ntoh h u)) off_cmd_submit_transfer_flags
           = be32_at u off_cmd_submit_transfer_flags"
    and "load32 h (snd (usbip_ntoh h u)) off_cmd_submit_transfer_buffer_length
           = be32_at u off_cmd_submit_transfer_buffer_length"
    and "load32 h (snd (usbip_ntoh h u)) off_cmd_submit_start_frame
           = be32_at u off_cmd_submit_start_frame"
    and "load32 h (snd (usbip_ntoh h u)) off_cmd_submit_number_of_packets
           = be32_at u off_cmd_submit_number_of_packets"
    and "load32 h (snd (usbip_ntoh h u)) off_cmd_submit_interval
           = be32_at u off_cmd_submit_interval"
    and "load16 h (snd (usbip_ntoh h u)) off_cmd_submit_setup_wValue
           = le16_at u off_cmd_submit_setup_wValue"
    and "load16 h (snd (usbip_ntoh h u)) off_cmd_submit_setup_wIndex
           = le16_at u off_cmd_submit_setup_wIndex"
    and "load16 h (snd (usbip_ntoh h u)) off_cmd_submit_setup_wLength
           = le16_at u off_cmd_submit_setup_wLength"
    and "snd (usbip_ntoh h u) ! off_cmd_submit_setup_bmRequestType
           = u ! off_cmd_submit_setup_bmRequestType"
    and "snd (usbip_ntoh h u) ! off_cmd_submit_setup_bRequest
           = u ! off_cmd_submit_setup_bRequest"
  using assms by (simp_all add: usbip_ntoh_def Let_def sizeof_usbip_def field_simps_at)

lemma ntoh_ret_submit:
  assumes "length u = sizeof_usbip" and "be32_at u off_command = USBIP_RET_SUBMIT"
  shows "load32 h (snd (usbip_ntoh h u)) off_ret_submit_status
           = be32_at u off_ret_submit_status"
    and "load32 h (snd (usbip_ntoh h u)) off_ret_submit_actual_length
           = be32_at u off_ret_submit_actual_length"
    and "load32 h (snd (usbip_ntoh h u)) off_ret_submit_start_frame
           = be32_at u off_ret_submit_start_frame"
    and "load32 h (snd (usbip_ntoh h u)) off_ret_submit_number_of_packets
           = be32_at u off_ret_submit_number_of_packets"
    and "load32 h (snd (usbip_ntoh h u)) off_ret_submit_error_count
           = be32_at u off_ret_submit_error_count"
    and "load16 h (snd (usbip_ntoh h u)) off_ret_submit_setup_wValue
           = le16_at u off_ret_submit_setup_wValue"
    and "load16 h (snd (usbip_ntoh h u)) off_ret_submit_setup_wIndex
           = le16_at u off_ret_submit_setup_wIndex"
    and "load16 h (snd (usbip_ntoh h u)) off_ret_submit_setup_wLength
           = le16_at u off_ret_submit_setup_wLength"
    and "snd (usbip_ntoh h u) ! off_ret_submit_setup_bmRequestType
           = u ! off_ret_submit_setup_bmRequestType"
    and "snd (usbip_ntoh h u) ! off_ret_submit_setup_bRequest
           = u ! off_ret_submit_setup_bRequest"
  using assms
  by (simp_all add: usbip_ntoh_def Let_def sizeof_usbip_def field_simps_at
        USBIP_CMD_SUBMIT_def USBIP_CMD_UNLINK_def USBIP_RET_SUBMIT_def)

lemma ntoh_unlink_nth:
  assumes "length u = sizeof_usbip"
    and "be32_at u off_command = USBIP_CMD_UNLINK \<or> be32_at u off_command = USBIP_RET_UNLINK"
    and "24 \<le> i"
  shows "snd (usbip_ntoh h u) ! i = u ! i"
  using assms
  by (auto simp: usbip_ntoh_def Let_def sizeof_usbip_def field_simps_at
        USBIP_CMD_SUBMIT_def USBIP_CMD_UNLINK_def USBIP_RET_SUBMIT_def USBIP_RET_UNLINK_def)

lemma ntoh_unlink_field:
  assumes "length u = sizeof_usbip"
    and "be32_at u off_command = USBIP_CMD_UNLINK \<or> be32_at u off_command = USBIP_RET_UNLINK"
  shows "load32 h (snd (usbip_ntoh h u)) 20 = be32_at u 20"
  using assms
  by (auto simp: usbip_ntoh_def Let_def sizeof_usbip_def field_simps_at
        USBIP_CMD_SUBMIT_def USBIP_CMD_UNLINK_def USBIP_RET_SUBMIT_def USBIP_RET_UNLINK_def)

lemma ntoh_unsupported_nth:
  assumes "length u = sizeof_usbip"
    and "be32_at u off_command \<notin> {USBIP_CMD_SUBMIT, USBIP_CMD_UNLINK, USBIP_RET_SUBMIT, USBIP_RET_UNLINK}"
    and "20 \<le> i"
  shows "snd (usbip_ntoh h u) ! i = u ! i"
  using assms
  by (auto simp: usbip_ntoh_def Let_def sizeof_usbip_def field_simps_at)

lemma nth_be32toh_at_LittleEndian:
  assumes "off + 4 \<le> length u"
  shows "be32toh_at LittleEndian off u ! off = u ! (off + 3)"
    and "be32toh_at LittleEndian off u ! (off + 1) = u ! (off + 2)"
    and "be32toh_at LittleEndian off u ! (off + 2) = u ! (off + 1)"
    and "be32toh_at LittleEndian off u ! (off + 3) = u ! off"
  using assms
  by (simp_all add: be32toh_at_def store32_def be32toh_def load32_def bswap_32_word32)

lemma be32toh_at_BigEndian: "be32toh_at BigEndian off u = u"
  by (simp add: be32toh_at_def be32toh_def store32_load32_id)

lemma le16toh_at_LittleEndian: "le16toh_at LittleEndian off u = u"
  by (simp add: le16toh_at_def le16toh_def store16_load16_id)



subsection \<open>Encoding then decoding\<close>

lemma length_htobe32_at [simp]: "length (htobe32_at h off u) = length u"
  by (simp add: htobe32_at_def)

lemma length_htole16_at [simp]: "length (htole16_at h off u) = length u"
  by (simp add: htole16_at_def)

lemma be32toh_at_htobe32_at:
  "off + 4 \<le> length u \<Longrightarrow> be32toh_at h off (htobe32_at h off u) = u"
  by (simp add: be32toh_at_def htobe32_at_def load32_store32_same store32_store32_same
        store32_load32_id)

lemma le16toh_at_htole16_at:
  "off + 2 \<le> length u \<Longrightarrow> le16toh_at h off (htole16_at h off u) = u"
  by (simp add: le16toh_at_def htole16_at_def load16_store16_same store16_store16_same
        store16_load16_id)

lemma nth_htobe32_at_other: "i < off \<or> off + 4 \<le> i \<Longrightarrow> htobe32_at h off u ! i = u ! i"
  by (simp add: htobe32_at_def nth_store32_other)

lemma nth_htole16_at_other: "i < off \<or> off + 2 \<le> i \<Longrightarrow> htole16_at h off u ! i = u ! i"
  by (simp add: htole16_at_def nth_store16_other)

lemma load32_htobe32_at_other:
  "off' + 4 \<le> off \<or> off + 4 \<le> off' \<Longrightarrow> load32 h (htobe32_at h off u) off' = load32 h u off'"
  by (cases h) (auto simp: load32_def nth_htobe32_at_other)

lemma load32_htole16_at_other:
  "off' + 4 \<le> off \<or> off + 2 \<le> off' \<Longrightarrow> load32 h (htole16_at h off u) off' = load32 h u off'"
  by (cases h) (auto simp: load32_def nth_htole16_at_other)

lemmas roundtrip_simps =
  be32toh_at_htobe32_at le16toh_at_htole16_at load32_htobe32_at_other load32_htole16_at_other

lemma ntoh_encode:
  assumes "length m = sizeof_usbip"
    and "load32 h m off_command \<in> {USBIP_CMD_SUBMIT, USBIP_CMD_UNLINK, USBIP_RET_SUBMIT, USBIP_RET_UNLINK}"
  shows "usbip_ntoh h (encode h m) = (Inr (), m)"
  using assms
  by (auto simp: usbip_ntoh_def encode_def Let_def sizeof_usbip_def roundtrip_simps)



subsection \<open>The dumper\<close>

lemma fprintf_append: "fprintf (f @ g) s = f @ fprintf g s"
  by (simp add: fprintf_def)

lemma dump_data_append:
  "dump_data u n i (f @ g) = map_option ((@) f) (dump_data u n i g)"
proof (induction u n i g rule: dump_data.induct)
  case (1 u n i g)
  show ?case
  proof (cases "i < n \<and> off_cmd_submit_data + i < length u")
    case True
    then show ?thesis
      using "1.IH" by (simp add: dump_data.simps [of u n i] fprintf_append)
  next
    case False
    then show ?thesis
      by (auto simp: dump_data.simps [of u n i])
  qed
qed

lemma dump_data_in_bounds:
  "off_cmd_submit_data + n \<le> length u \<Longrightarrow> i \<le> n \<Longrightarrow>
   dump_data u n i f = Some (f @ hex_lines i (take (n - i) (drop (off_cmd_submit_data + i) u)))"
proof (induction u n i f rule: dump_data.induct)
  case (1 u n i f)
  show ?case
  proof (cases "i < n")
    case True
    with "1.prems" have inb: "off_cmd_submit_data + i < length u" by simp
    have split: "take (n - i) (drop (off_cmd_submit_data + i) u)
                 = u ! (off_cmd_submit_data + i)
                   # take (n - Suc i) (drop (off_cmd_submit_data + Suc i) u)"
    proof -
      have "drop (48 + i) u = u ! (48 + i) # drop (Suc (48 + i)) u"
        using inb Cons_nth_drop_Suc [of "48 + i" u] by simp
      moreover obtain k where "n - i = Suc k" "n - Suc i = k"
        using True by (metis Suc_diff_Suc)
      ultimately show ?thesis by simp
    qed
    from True inb "1.prems" have
      "dump_data u n (Suc i)
         (fprintf f ((if i mod 32 = 0 then ''\<newline>    '' else '''')
                     @ fmt_02x (u ! (off_cmd_submit_data + i))))
       = Some (fprintf f ((if i mod 32 = 0 then ''\<newline>    '' else '''')
                     @ fmt_02x (u ! (off_cmd_submit_data + i)))
               @ hex_lines (Suc i) (take (n - Suc i) (drop (off_cmd_submit_data + Suc i) u)))"
      by (intro "1.IH") simp_all
    with True inb show ?thesis
      by (simp add: dump_data.simps [of u n i] split fprintf_def del: off_cmd_submit_data_def)
  next
    case False
    with "1.prems" show ?thesis by (subst dump_data.simps) simp
  qed
qed

lemma dump_data_out_of_bounds:
  "length u < off_cmd_submit_data + n \<Longrightarrow> i < n \<Longrightarrow> dump_data u n i f = None"
proof (induction u n i f rule: dump_data.induct)
  case (1 u n i f)
  show ?case
  proof (cases "off_cmd_submit_data + i < length u")
    case True
    with "1.prems" have "Suc i < n" by simp
    with True "1.prems" "1.IH" show ?thesis
      by (simp add: dump_data.simps [of u n i])
  next
    case False
    with "1.prems" show ?thesis by (simp add: dump_data.simps [of u n i])
  qed
qed

lemma usbip_dump_append:
  "usbip_dump h u (f @ g) = map_option ((@) f) (usbip_dump h u g)"
  by (simp add: usbip_dump_def Let_def fprintf_append dump_data_append
        split: option.splits)



subsection \<open>Receiving\<close>

lemma length_recv_usbip [simp]: "length (recv_usbip d) = sizeof_usbip"
  by (simp add: recv_usbip_def)

lemma nth_recv_usbip:
  "i < sizeof_usbip \<Longrightarrow> recv_usbip d ! i = (if i < length d then d ! i else 0)"
  by (auto simp: recv_usbip_def nth_append)

lemma be32_at_recv_usbip:
  "off + 4 \<le> length d \<Longrightarrow> off + 4 \<le> sizeof_usbip \<Longrightarrow> be32_at (recv_usbip d) off = be32_at d off"
  by (simp add: be32_at_def nth_recv_usbip)

lemma le16_at_recv_usbip:
  "off + 2 \<le> length d \<Longrightarrow> off + 2 \<le> sizeof_usbip \<Longrightarrow> le16_at (recv_usbip d) off = le16_at d off"
  by (simp add: le16_at_def nth_recv_usbip)

subsection \<open>The example frames\<close>

lemma length_examples:
  "length wire_submit = 64" "length wire_unlink = 28" "length wire_unknown = 24"
  "length wire_short_reply = 58" "length host_oversize_reply = 65536"
  "length host_small_reply = 65536"
  by (simp_all add: wire_submit_def wire_unlink_def wire_unknown_def wire_short_reply_def
        host_oversize_reply_def host_small_reply_def)

lemma wire_submit_fields:
  "be32_at wire_submit 0 = 1" "be32_at wire_submit 24 = 16" "le16_at wire_submit 42 = 0x1234"
  by (simp_all add: be32_at_def le16_at_def wire_submit_def word32_def word16_def)

lemma wire_unlink_fields: "be32_at wire_unlink 0 = 2"
  by (simp add: be32_at_def wire_unlink_def word32_def)

lemma wire_unknown_fields: "be32_at wire_unknown 0 = 99"
  by (simp add: be32_at_def wire_unknown_def word32_def)

lemma wire_short_reply_fields:
  "be32_at wire_short_reply 0 = 3" "be32_at wire_short_reply 24 = 64"
  by (simp_all add: be32_at_def wire_short_reply_def word32_def)

lemma host_oversize_reply_fields:
  "load32 LittleEndian host_oversize_reply 0 = 3"
  "unat (load32 LittleEndian host_oversize_reply 24) = 65489"
  by (simp_all add: load32_def host_oversize_reply_def word32_def nth_append)

lemma host_small_reply_fields:
  "load32 LittleEndian host_small_reply 0 = 3"
  "unat (load32 LittleEndian host_small_reply 24) = 3"
  by (simp_all add: load32_def host_small_reply_def word32_def nth_append)

lemma host_submit_lengths:
  "length host_oversize_submit = 65536" "length host_small_submit = 65536"
  by (simp_all add: host_oversize_submit_def host_small_submit_def)

lemma host_oversize_submit_fields:
  "load32 LittleEndian host_oversize_submit 0 = 1"
  "unat (load32 LittleEndian host_oversize_submit 24) = 65489"
  by (simp_all add: load32_def host_oversize_submit_def word32_def nth_append)

lemma host_small_submit_fields:
  "load32 LittleEndian host_small_submit 0 = 1"
  "unat (load32 LittleEndian host_small_submit 24) = 2"
  by (simp_all add: load32_def host_small_submit_def word32_def nth_append)

lemmas command_defs =
  USBIP_CMD_SUBMIT_def USBIP_CMD_UNLINK_def USBIP_RET_SUBMIT_def USBIP_RET_UNLINK_def

section \<open>Byte order of decoded fields\<close>

text \<open>
  Claim C1. For every received frame, after \<open>usbip_ntoh\<close> each of the five header
  fields, read in host order, holds the value its four wire bytes have in big-endian order.
  When the command is a submit command or a submit reply, the same holds for the five 32-bit
  payload fields, while the setup packet's value, index and length hold the value their two
  wire bytes have in little-endian order, and the two single-byte setup fields are as
  received. This holds on a host of either byte order.
\<close>

theorem usbip_ntoh_byte_order:
  assumes "length u = sizeof_usbip"
  shows "(let u' = snd (usbip_ntoh h u) in
      load32 h u' off_command = be32_at u off_command
    \<and> load32 h u' off_seqnum = be32_at u off_seqnum
    \<and> load32 h u' off_devid = be32_at u off_devid
    \<and> load32 h u' off_direction = be32_at u off_direction
    \<and> load32 h u' off_endpoint = be32_at u off_endpoint
    \<and> (be32_at u off_command = USBIP_CMD_SUBMIT \<longrightarrow>
          load32 h u' off_cmd_submit_transfer_flags = be32_at u off_cmd_submit_transfer_flags
        \<and> load32 h u' off_cmd_submit_transfer_buffer_length
            = be32_at u off_cmd_submit_transfer_buffer_length
        \<and> load32 h u' off_cmd_submit_start_frame = be32_at u off_cmd_submit_start_frame
        \<and> load32 h u' off_cmd_submit_number_of_packets
            = be32_at u off_cmd_submit_number_of_packets
        \<and> load32 h u' off_cmd_submit_interval = be32_at u off_cmd_submit_interval
        \<and> load16 h u' off_cmd_submit_setup_wValue = le16_at u off_cmd_submit_setup_wValue
        \<and> load16 h u' off_cmd_submit_setup_wIndex = le16_at u off_cmd_submit_setup_wIndex
        \<and> load16 h u' off_cmd_submit_setup_wLength = le16_at u off_cmd_submit_setup_wLength
        \<and> u' ! off_cmd_submit_setup_bmRequestType = u ! off_cmd_submit_setup_bmRequestType
        \<and> u' ! off_cmd_submit_setup_bRequest = u ! off_cmd_submit_setup_bRequest)
    \<and> (be32_at u off_command = USBIP_RET_SUBMIT \<longrightarrow>
          load32 h u' off_ret_submit_status = be32_at u off_ret_submit_status
        \<and> load32 h u' off_ret_submit_actual_length = be32_at u off_ret_submit_actual_length
        \<and> load32 h u' off_ret_submit_start_frame = be32_at u off_ret_submit_start_frame
        \<and> load32 h u' off_ret_submit_number_of_packets
            = be32_at u off_ret_submit_number_of_packets
        \<and> load32 h u' off_ret_submit_error_count = be32_at u off_ret_submit_error_count
        \<and> load16 h u' off_ret_submit_setup_wValue = le16_at u off_ret_submit_setup_wValue
        \<and> load16 h u' off_ret_submit_setup_wIndex = le16_at u off_ret_submit_setup_wIndex
        \<and> load16 h u' off_ret_submit_setup_wLength = le16_at u off_ret_submit_setup_wLength
        \<and> u' ! off_ret_submit_setup_bmRequestType = u ! off_ret_submit_setup_bmRequestType
        \<and> u' ! off_ret_submit_setup_bRequest = u ! off_ret_submit_setup_bRequest))"
  unfolding Let_def
  using ntoh_header [OF assms, of h] ntoh_cmd_submit [OF assms, of h]
    ntoh_ret_submit [OF assms, of h]
  by (intro conjI impI) assumption+

text \<open>
  The frame of claim C1: command bytes \<^verbatim>\<open>00 00 00 01\<close> decode to 1, transfer buffer
  length bytes \<^verbatim>\<open>00 00 00 10\<close> to 16 and setup value bytes \<^verbatim>\<open>34 12\<close> to
  \<^verbatim>\<open>0x1234\<close>, in the same message.
\<close>

theorem usbip_ntoh_byte_order_witness:
  "length (recv_usbip wire_submit) = sizeof_usbip
   \<and> load32 LittleEndian (snd (usbip_ntoh LittleEndian (recv_usbip wire_submit))) off_command = 1
   \<and> load32 LittleEndian (snd (usbip_ntoh LittleEndian (recv_usbip wire_submit)))
        off_cmd_submit_transfer_buffer_length = 16
   \<and> load16 LittleEndian (snd (usbip_ntoh LittleEndian (recv_usbip wire_submit)))
        off_cmd_submit_setup_wValue = 0x1234
   \<and> load32 BigEndian (snd (usbip_ntoh BigEndian (recv_usbip wire_submit))) off_command = 1
   \<and> load32 BigEndian (snd (usbip_ntoh BigEndian (recv_usbip wire_submit)))
        off_cmd_submit_transfer_buffer_length = 16
   \<and> load16 BigEndian (snd (usbip_ntoh BigEndian (recv_usbip wire_submit)))
        off_cmd_submit_setup_wValue = 0x1234"
  using usbip_ntoh_byte_order [of "recv_usbip wire_submit" LittleEndian]
    usbip_ntoh_byte_order [of "recv_usbip wire_submit" BigEndian]
  by (simp add: Let_def be32_at_recv_usbip le16_at_recv_usbip length_examples sizeof_usbip_def
        wire_submit_fields command_defs)



section \<open>Unknown command codes\<close>

text \<open>
  Claim C3. For every frame whose command code, decoded from big-endian, is none of 1, 2, 3
  and 4, \<open>usbip_ntoh\<close> returns the error \<open>ENOTSUP\<close>. The function is total: it returns
  for every frame.
\<close>

theorem usbip_ntoh_unsupported:
  assumes "length u = sizeof_usbip"
    and "be32_at u off_command
           \<notin> {USBIP_CMD_SUBMIT, USBIP_CMD_UNLINK, USBIP_RET_SUBMIT, USBIP_RET_UNLINK}"
  shows "fst (usbip_ntoh h u) = Inl ENOTSUP"
  using assms by (simp add: ntoh_status)

text \<open>
  Claim C3 at command code 99.
\<close>

theorem usbip_ntoh_unsupported_witness:
  "length (recv_usbip wire_unknown) = sizeof_usbip
   \<and> be32_at (recv_usbip wire_unknown) off_command = 99
   \<and> be32_at (recv_usbip wire_unknown) off_command
        \<notin> {USBIP_CMD_SUBMIT, USBIP_CMD_UNLINK, USBIP_RET_SUBMIT, USBIP_RET_UNLINK}
   \<and> fst (usbip_ntoh LittleEndian (recv_usbip wire_unknown)) = Inl ENOTSUP
   \<and> fst (usbip_ntoh BigEndian (recv_usbip wire_unknown)) = Inl ENOTSUP"
  using usbip_ntoh_unsupported [of "recv_usbip wire_unknown" LittleEndian]
    usbip_ntoh_unsupported [of "recv_usbip wire_unknown" BigEndian]
  by (simp add: be32_at_recv_usbip length_examples sizeof_usbip_def wire_unknown_fields
        command_defs)

section \<open>Declared lengths are not checked by the normalizer\<close>

text \<open>
  Claim C4 fails on the program: a submit reply declaring an actual length of 64, received
  in a datagram that carries ten bytes of data, is normalized with status 0.
\<close>

theorem usbip_ntoh_short_reply_accepted:
  "be32_at (recv_usbip wire_short_reply) off_command = USBIP_RET_SUBMIT
   \<and> be32_at (recv_usbip wire_short_reply) off_ret_submit_actual_length = 64
   \<and> length wire_short_reply - off_ret_submit_data = 10
   \<and> fst (usbip_ntoh LittleEndian (recv_usbip wire_short_reply)) = Inr ()"
  by (simp add: ntoh_status be32_at_recv_usbip length_examples sizeof_usbip_def
        wire_short_reply_fields command_defs)

text \<open>
  Claim C4 as amended. Whatever datagram was received, short or long, and whatever length
  it declares, \<open>usbip_ntoh\<close> returns success when the command code is one of the four
  known kinds: the declared length is never compared with the bytes supplied.
\<close>

theorem usbip_ntoh_no_length_check:
  assumes "be32_at (recv_usbip d) off_command
             \<in> {USBIP_CMD_SUBMIT, USBIP_CMD_UNLINK, USBIP_RET_SUBMIT, USBIP_RET_UNLINK}"
  shows "fst (usbip_ntoh h (recv_usbip d)) = Inr ()"
  using assms by (simp add: ntoh_status)

text \<open>
  The amended claim C4 at the short submit reply.
\<close>

theorem usbip_ntoh_no_length_check_witness:
  "be32_at (recv_usbip wire_short_reply) off_command
     \<in> {USBIP_CMD_SUBMIT, USBIP_CMD_UNLINK, USBIP_RET_SUBMIT, USBIP_RET_UNLINK}
   \<and> fst (usbip_ntoh BigEndian (recv_usbip wire_short_reply)) = Inr ()"
  using usbip_ntoh_no_length_check [of wire_short_reply BigEndian]
  by (simp add: be32_at_recv_usbip length_examples sizeof_usbip_def wire_short_reply_fields
        command_defs)

section \<open>Unlink frames: what the normalizer leaves alone\<close>

text \<open>
  Claim C9. For an unlink command or an unlink reply, \<open>usbip_ntoh\<close> leaves every byte
  from offset 24 to the end of the frame as it was, padding included, and keeps the frame's
  size; the bytes before are the five header fields and the one 32-bit payload field, which
  holds the big-endian value of its wire bytes.
\<close>

theorem usbip_ntoh_unlink_frame:
  assumes "length u = sizeof_usbip"
    and "be32_at u off_command \<in> {USBIP_CMD_UNLINK, USBIP_RET_UNLINK}"
  shows "drop 24 (snd (usbip_ntoh h u)) = drop 24 u
       \<and> length (snd (usbip_ntoh h u)) = length u
       \<and> load32 h (snd (usbip_ntoh h u)) off_cmd_unlink_seqnum = be32_at u off_cmd_unlink_seqnum"
proof -
  from assms(2) have kind:
    "be32_at u off_command = USBIP_CMD_UNLINK \<or> be32_at u off_command = USBIP_RET_UNLINK"
    by simp
  have "drop 24 (snd (usbip_ntoh h u)) = drop 24 u"
  proof (rule nth_equalityI)
    show "length (drop 24 (snd (usbip_ntoh h u))) = length (drop 24 u)" by simp
  next
    fix i assume "i < length (drop 24 (snd (usbip_ntoh h u)))"
    then have "24 + i < length u" by simp
    then show "drop 24 (snd (usbip_ntoh h u)) ! i = drop 24 u ! i"
      using ntoh_unlink_nth [OF assms(1) kind, of "24 + i" h] by simp
  qed
  moreover have "load32 h (snd (usbip_ntoh h u)) off_cmd_unlink_seqnum
                   = be32_at u off_cmd_unlink_seqnum"
    using ntoh_unlink_field [OF assms(1) kind, of h] by simp
  ultimately show ?thesis by simp
qed

text \<open>
  Claim C9 at an unlink command followed by bytes that are not zero.
\<close>

theorem usbip_ntoh_unlink_frame_witness:
  "length (recv_usbip wire_unlink) = sizeof_usbip
   \<and> be32_at (recv_usbip wire_unlink) off_command \<in> {USBIP_CMD_UNLINK, USBIP_RET_UNLINK}
   \<and> recv_usbip wire_unlink ! 24 = 0xde
   \<and> drop 24 (snd (usbip_ntoh LittleEndian (recv_usbip wire_unlink)))
        = drop 24 (recv_usbip wire_unlink)
   \<and> load32 LittleEndian (snd (usbip_ntoh LittleEndian (recv_usbip wire_unlink)))
        off_cmd_unlink_seqnum = 7"
proof -
  have "be32_at (recv_usbip wire_unlink) 20 = 7"
    by (simp add: be32_at_recv_usbip length_examples sizeof_usbip_def)
       (simp add: be32_at_def wire_unlink_def word32_def)
  moreover have "recv_usbip wire_unlink ! 24 = 0xde"
    by (simp add: nth_recv_usbip length_examples sizeof_usbip_def) (simp add: wire_unlink_def)
  ultimately show ?thesis
    using usbip_ntoh_unlink_frame [of "recv_usbip wire_unlink" LittleEndian]
    by (simp add: be32_at_recv_usbip length_examples sizeof_usbip_def wire_unlink_fields
          command_defs)
qed



section \<open>The error path changes the caller's frame\<close>

lemma nth_be32toh_at_LE_swap:
  assumes "off \<le> i" and "i < off + 4" and "off + 4 \<le> length u"
  shows "be32toh_at LittleEndian off u ! i = u ! (2 * off + 3 - i)"
proof -
  from assms(1,2) consider "i = off" | "i = off + 1" | "i = off + 2" | "i = off + 3"
    by fastforce
  then show ?thesis
    using nth_be32toh_at_LittleEndian [OF assms(3)] by cases simp_all
qed

lemma take_20:
  "20 \<le> length v \<Longrightarrow>
   take 20 v = [v ! 0, v ! 1, v ! 2, v ! 3, v ! 4, v ! 5, v ! 6, v ! 7, v ! 8, v ! 9,
                v ! 10, v ! 11, v ! 12, v ! 13, v ! 14, v ! 15, v ! 16, v ! 17, v ! 18, v ! 19]"
proof -
  assume len: "20 \<le> length v"
  have "take 20 v = map ((!) v) [0..<20]"
    using len by (simp add: list_eq_iff_nth_eq)
  also have "[0..<20] = [0, 1, 2, 3, 4, 5, 6, 7, 8, 9, 10, 11, 12, 13, 14, 15, 16, 17, 18, 19 :: nat]"
    by (simp add: upt_rec)
  finally show ?thesis by simp
qed

lemma ntoh_unsupported_header_LE:
  assumes "length u = sizeof_usbip"
    and "be32_at u off_command
           \<notin> {USBIP_CMD_SUBMIT, USBIP_CMD_UNLINK, USBIP_RET_SUBMIT, USBIP_RET_UNLINK}"
  shows "take 20 (snd (usbip_ntoh LittleEndian u))
       = [u ! 3, u ! 2, u ! 1, u ! 0,  u ! 7, u ! 6, u ! 5, u ! 4,
          u ! 11, u ! 10, u ! 9, u ! 8,  u ! 15, u ! 14, u ! 13, u ! 12,
          u ! 19, u ! 18, u ! 17, u ! 16]"
proof -
  have len: "20 \<le> length (snd (usbip_ntoh LittleEndian u))"
    using assms(1) by (simp add: sizeof_usbip_def)
  show ?thesis
    unfolding take_20 [OF len]
    using assms
    by (simp add: usbip_ntoh_def Let_def sizeof_usbip_def field_simps_at
          nth_be32toh_at_LE_swap)
qed

text \<open>
  Claim C10. When the command code is not recognised, \<open>usbip_ntoh\<close> returns \<open>ENOTSUP\<close>
  with the frame already modified: the five header fields hold their host-order values, the
  bytes after the header are untouched, and on a little-endian host the four bytes of each
  header field are left in reversed order.
\<close>

theorem usbip_ntoh_error_not_atomic:
  assumes "length u = sizeof_usbip"
    and "be32_at u off_command
           \<notin> {USBIP_CMD_SUBMIT, USBIP_CMD_UNLINK, USBIP_RET_SUBMIT, USBIP_RET_UNLINK}"
  shows "(let u' = snd (usbip_ntoh h u) in
      fst (usbip_ntoh h u) = Inl ENOTSUP
    \<and> load32 h u' off_command = be32_at u off_command
    \<and> load32 h u' off_seqnum = be32_at u off_seqnum
    \<and> load32 h u' off_devid = be32_at u off_devid
    \<and> load32 h u' off_direction = be32_at u off_direction
    \<and> load32 h u' off_endpoint = be32_at u off_endpoint
    \<and> drop 20 u' = drop 20 u
    \<and> (h = LittleEndian \<longrightarrow>
          take 20 u' = [u ! 3, u ! 2, u ! 1, u ! 0,  u ! 7, u ! 6, u ! 5, u ! 4,
                        u ! 11, u ! 10, u ! 9, u ! 8,  u ! 15, u ! 14, u ! 13, u ! 12,
                        u ! 19, u ! 18, u ! 17, u ! 16]))"
proof -
  have "drop 20 (snd (usbip_ntoh h u)) = drop 20 u"
  proof (rule nth_equalityI)
    show "length (drop 20 (snd (usbip_ntoh h u))) = length (drop 20 u)" by simp
  next
    fix i assume "i < length (drop 20 (snd (usbip_ntoh h u)))"
    then show "drop 20 (snd (usbip_ntoh h u)) ! i = drop 20 u ! i"
      using ntoh_unsupported_nth [OF assms, of "20 + i" h] by simp
  qed
  moreover have "fst (usbip_ntoh h u) = Inl ENOTSUP"
    using assms by (simp add: ntoh_status)
  ultimately show ?thesis
    unfolding Let_def
    using ntoh_header [OF assms(1), of h] ntoh_unsupported_header_LE [OF assms]
    by (intro conjI impI) simp_all
qed

text \<open>
  Claim C10 at command code 99 on a little-endian host: the header bytes before and
  after the failed call differ.
\<close>

theorem usbip_ntoh_error_not_atomic_witness:
  "length (recv_usbip wire_unknown) = sizeof_usbip
   \<and> be32_at (recv_usbip wire_unknown) off_command
        \<notin> {USBIP_CMD_SUBMIT, USBIP_CMD_UNLINK, USBIP_RET_SUBMIT, USBIP_RET_UNLINK}
   \<and> fst (usbip_ntoh LittleEndian (recv_usbip wire_unknown)) = Inl ENOTSUP
   \<and> load32 LittleEndian (snd (usbip_ntoh LittleEndian (recv_usbip wire_unknown))) off_command
        = 99
   \<and> take 20 (recv_usbip wire_unknown)
        = [0x00, 0x00, 0x00, 0x63,  0x00, 0x00, 0x00, 0x09,  0x00, 0x01, 0x00, 0x02,
           0x00, 0x00, 0x00, 0x00,  0x00, 0x00, 0x00, 0x00]
   \<and> take 20 (snd (usbip_ntoh LittleEndian (recv_usbip wire_unknown)))
        = [0x63, 0x00, 0x00, 0x00,  0x09, 0x00, 0x00, 0x00,  0x02, 0x00, 0x01, 0x00,
           0x00, 0x00, 0x00, 0x00,  0x00, 0x00, 0x00, 0x00]
   \<and> snd (usbip_ntoh LittleEndian (recv_usbip wire_unknown)) \<noteq> recv_usbip wire_unknown"
proof -
  have bytes: "take 20 (recv_usbip wire_unknown)
        = [0x00, 0x00, 0x00, 0x63,  0x00, 0x00, 0x00, 0x09,  0x00, 0x01, 0x00, 0x02,
           0x00, 0x00, 0x00, 0x00,  0x00, 0x00, 0x00, 0x00]"
    by (simp add: recv_usbip_def wire_unknown_def sizeof_usbip_def)
  have nths: "recv_usbip wire_unknown ! i = wire_unknown ! i" if "i < 24" for i
    using that by (simp add: nth_recv_usbip length_examples sizeof_usbip_def)
  have swapped: "take 20 (snd (usbip_ntoh LittleEndian (recv_usbip wire_unknown)))
        = [0x63, 0x00, 0x00, 0x00,  0x09, 0x00, 0x00, 0x00,  0x02, 0x00, 0x01, 0x00,
           0x00, 0x00, 0x00, 0x00,  0x00, 0x00, 0x00, 0x00]"
    using usbip_ntoh_error_not_atomic [of "recv_usbip wire_unknown" LittleEndian]
    by (simp add: Let_def be32_at_recv_usbip length_examples sizeof_usbip_def
          wire_unknown_fields command_defs nths)
       (simp add: wire_unknown_def)
  have "take 20 (snd (usbip_ntoh LittleEndian (recv_usbip wire_unknown)))
          \<noteq> take 20 (recv_usbip wire_unknown)"
    unfolding swapped bytes by simp
  then have "snd (usbip_ntoh LittleEndian (recv_usbip wire_unknown)) \<noteq> recv_usbip wire_unknown"
    by auto
  then show ?thesis
    using usbip_ntoh_error_not_atomic [of "recv_usbip wire_unknown" LittleEndian] bytes swapped
    by (simp add: Let_def be32_at_recv_usbip length_examples sizeof_usbip_def
          wire_unknown_fields command_defs)
qed

section \<open>Encoding and decoding\<close>

text \<open>
  Claim C6. For every message frame \<open>m\<close> of one of the four kinds, decoding the encoding of
  \<open>m\<close> succeeds and gives back \<open>m\<close>, byte for byte.
\<close>

theorem usbip_ntoh_encode:
  assumes "length m = sizeof_usbip"
    and "load32 h m off_command
           \<in> {USBIP_CMD_SUBMIT, USBIP_CMD_UNLINK, USBIP_RET_SUBMIT, USBIP_RET_UNLINK}"
  shows "usbip_ntoh h (encode h m) = (Inr (), m)"
  using assms by (rule ntoh_encode)

text \<open>
  Claim C6 at a submit reply on a little-endian host.
\<close>

theorem usbip_ntoh_encode_witness:
  "length host_small_reply = sizeof_usbip
   \<and> load32 LittleEndian host_small_reply off_command
        \<in> {USBIP_CMD_SUBMIT, USBIP_CMD_UNLINK, USBIP_RET_SUBMIT, USBIP_RET_UNLINK}
   \<and> usbip_ntoh LittleEndian (encode LittleEndian host_small_reply) = (Inr (), host_small_reply)"
  using usbip_ntoh_encode [of host_small_reply LittleEndian]
  by (simp add: length_examples sizeof_usbip_def host_small_reply_fields command_defs)



section \<open>The hex dump and the end of the frame\<close>

lemma command_distinct:
  "USBIP_CMD_UNLINK \<noteq> USBIP_CMD_SUBMIT" "USBIP_RET_SUBMIT \<noteq> USBIP_CMD_SUBMIT"
  "USBIP_RET_UNLINK \<noteq> USBIP_CMD_SUBMIT" "USBIP_RET_SUBMIT \<noteq> USBIP_CMD_UNLINK"
  "USBIP_RET_UNLINK \<noteq> USBIP_CMD_UNLINK" "USBIP_RET_UNLINK \<noteq> USBIP_RET_SUBMIT"
  by (simp_all add: command_defs)

lemma usbip_dump_shape_submit:
  assumes "load32 h u off_command = USBIP_CMD_SUBMIT"
  shows "\<exists>pre. usbip_dump h u [] =
           (case dump_data u (unat (load32 h u off_cmd_submit_transfer_buffer_length)) 0 pre of
              None \<Rightarrow> None
            | Some g \<Rightarrow> Some (fprintf (fprintf g ''\<newline>  }\<newline>'') ''}\<newline>''))"
  unfolding usbip_dump_def Let_def
  apply (simp only: assms if_True simp_thms)
  apply (rule exI)
  apply (rule refl)
  done

lemma usbip_dump_shape_ret_submit:
  assumes "load32 h u off_command = USBIP_RET_SUBMIT"
  shows "\<exists>pre. usbip_dump h u [] =
           (case dump_data u (unat (load32 h u off_ret_submit_actual_length)) 0 pre of
              None \<Rightarrow> None
            | Some g \<Rightarrow> Some (fprintf (fprintf g ''\<newline>  }\<newline>'') ''}\<newline>''))"
  unfolding usbip_dump_def Let_def
  apply (simp only: assms command_distinct if_True if_False simp_thms)
  apply (rule exI)
  apply (rule refl)
  done

lemma usbip_dump_shape_other:
  assumes "load32 h u off_command \<notin> {USBIP_CMD_SUBMIT, USBIP_RET_SUBMIT}"
  shows "\<exists>pre. usbip_dump h u [] = Some (fprintf pre ''}\<newline>'')"
proof -
  from assms have ne: "load32 h u off_command \<noteq> USBIP_CMD_SUBMIT"
    "load32 h u off_command \<noteq> USBIP_RET_SUBMIT" by simp_all
  consider "load32 h u off_command = USBIP_CMD_UNLINK"
    | "load32 h u off_command = USBIP_RET_UNLINK"
    | "load32 h u off_command \<noteq> USBIP_CMD_UNLINK" "load32 h u off_command \<noteq> USBIP_RET_UNLINK"
    by blast
  then show ?thesis
  proof cases
    case 1
    show ?thesis
      unfolding usbip_dump_def Let_def
      apply (simp only: 1 command_distinct if_True if_False simp_thms)
      apply (rule exI)
      apply (rule refl)
      done
  next
    case 2
    show ?thesis
      unfolding usbip_dump_def Let_def
      apply (simp only: 2 command_distinct if_True if_False simp_thms)
      apply (rule exI)
      apply (rule refl)
      done
  next
    case 3
    show ?thesis
      unfolding usbip_dump_def Let_def
      apply (simp only: 3 ne if_True if_False simp_thms)
      apply (rule exI)
      apply (rule refl)
      done
  qed
qed



text \<open>
  Claim C5 fails on the program: for a submit reply whose actual length is 65489, one more
  than the bytes that follow the fixed fields, the hex-dump loop reads beyond the end of the
  frame; nothing is truncated and no marker is written.
\<close>

theorem usbip_dump_reads_past_frame:
  "length host_oversize_reply = sizeof_usbip
   \<and> load32 LittleEndian host_oversize_reply off_command = USBIP_RET_SUBMIT
   \<and> unat (load32 LittleEndian host_oversize_reply off_ret_submit_actual_length) = 65489
   \<and> usbip_dump LittleEndian host_oversize_reply [] = None"
  by (simp add: usbip_dump_def Let_def host_oversize_reply_fields length_examples
        sizeof_usbip_def command_defs dump_data_out_of_bounds)

lemma usbip_dump_text:
  assumes "load32 h u off_command = USBIP_CMD_SUBMIT \<Longrightarrow>
           off_cmd_submit_data + unat (load32 h u off_cmd_submit_transfer_buffer_length)
             \<le> length u"
    and "load32 h u off_command = USBIP_RET_SUBMIT \<Longrightarrow>
           off_ret_submit_data + unat (load32 h u off_ret_submit_actual_length) \<le> length u"
  shows "\<exists>pre. usbip_dump h u f =
           Some (f @ pre
                 @ (if load32 h u off_command = USBIP_CMD_SUBMIT then
                      hex_lines 0 (take (unat (load32 h u off_cmd_submit_transfer_buffer_length))
                                     (drop off_cmd_submit_data u)) @ ''\<newline>  }\<newline>''
                    else if load32 h u off_command = USBIP_RET_SUBMIT then
                      hex_lines 0 (take (unat (load32 h u off_ret_submit_actual_length))
                                     (drop off_ret_submit_data u)) @ ''\<newline>  }\<newline>''
                    else [])
                 @ ''}\<newline>'')"
proof -
  have app: "usbip_dump h u f = map_option ((@) f) (usbip_dump h u [])"
    using usbip_dump_append [of h u f "[]"] by simp
  consider (submit) "load32 h u off_command = USBIP_CMD_SUBMIT"
    | (reply) "load32 h u off_command = USBIP_RET_SUBMIT"
    | (other) "load32 h u off_command \<notin> {USBIP_CMD_SUBMIT, USBIP_RET_SUBMIT}"
    by blast
  then show ?thesis
  proof cases
    case submit
    let ?n = "unat (load32 h u off_cmd_submit_transfer_buffer_length)"
    from assms(1) [OF submit] have inb: "off_cmd_submit_data + ?n \<le> length u" .
    obtain pre where
      "usbip_dump h u [] = (case dump_data u ?n 0 pre of None \<Rightarrow> None
          | Some g \<Rightarrow> Some (fprintf (fprintf g ''\<newline>  }\<newline>'') ''}\<newline>''))"
      using usbip_dump_shape_submit [OF submit] by blast
    then have "usbip_dump h u f =
        Some (f @ pre @ (hex_lines 0 (take ?n (drop off_cmd_submit_data u))
                          @ ''\<newline>  }\<newline>'') @ ''}\<newline>'')"
      using dump_data_in_bounds [OF inb, of 0 pre] by (simp add: app fprintf_def)
    with submit show ?thesis by (intro exI [of _ pre]) (simp only: if_True simp_thms)
  next
    case reply
    let ?n = "unat (load32 h u off_ret_submit_actual_length)"
    from assms(2) [OF reply] have inb: "off_cmd_submit_data + ?n \<le> length u"
      by simp
    obtain pre where
      "usbip_dump h u [] = (case dump_data u ?n 0 pre of None \<Rightarrow> None
          | Some g \<Rightarrow> Some (fprintf (fprintf g ''\<newline>  }\<newline>'') ''}\<newline>''))"
      using usbip_dump_shape_ret_submit [OF reply] by blast
    then have "usbip_dump h u f =
        Some (f @ pre @ (hex_lines 0 (take ?n (drop off_ret_submit_data u))
                          @ ''\<newline>  }\<newline>'') @ ''}\<newline>'')"
      using dump_data_in_bounds [OF inb, of 0 pre] by (simp add: app fprintf_def)
    with reply show ?thesis
      by (intro exI [of _ pre]) (simp only: command_distinct if_True if_False simp_thms)
  next
    case other
    then have ne: "load32 h u off_command \<noteq> USBIP_CMD_SUBMIT"
      "load32 h u off_command \<noteq> USBIP_RET_SUBMIT" by simp_all
    obtain pre where "usbip_dump h u [] = Some (fprintf pre ''}\<newline>'')"
      using usbip_dump_shape_other [OF other] by blast
    then have "usbip_dump h u f = Some (f @ pre @ [] @ ''}\<newline>'')"
      by (simp add: app fprintf_def)
    with ne show ?thesis by (intro exI [of _ pre]) (simp only: if_False simp_thms)
  qed
qed

text \<open>
  Claim C5 as amended. For every frame whose declared length, when it is a submit command
  or a submit reply, is at most the 65488 bytes that follow the fixed fields, \<open>usbip_dump\<close>
  reads inside the frame only and writes its text, which ends with the hex dump of exactly
  the declared number of bytes and the closing braces. No truncation marker is part of the
  output.
\<close>

theorem usbip_dump_in_bounds:
  assumes "length u = sizeof_usbip"
    and "load32 h u off_command = USBIP_CMD_SUBMIT \<Longrightarrow>
           unat (load32 h u off_cmd_submit_transfer_buffer_length)
             \<le> sizeof_usbip - off_cmd_submit_data"
    and "load32 h u off_command = USBIP_RET_SUBMIT \<Longrightarrow>
           unat (load32 h u off_ret_submit_actual_length) \<le> sizeof_usbip - off_ret_submit_data"
  shows "\<exists>pre. usbip_dump h u f =
           Some (f @ pre
                 @ (if load32 h u off_command = USBIP_CMD_SUBMIT then
                      hex_lines 0 (take (unat (load32 h u off_cmd_submit_transfer_buffer_length))
                                     (drop off_cmd_submit_data u)) @ ''\<newline>  }\<newline>''
                    else if load32 h u off_command = USBIP_RET_SUBMIT then
                      hex_lines 0 (take (unat (load32 h u off_ret_submit_actual_length))
                                     (drop off_ret_submit_data u)) @ ''\<newline>  }\<newline>''
                    else [])
                 @ ''}\<newline>'')"
proof (rule usbip_dump_text)
  assume "load32 h u off_command = USBIP_CMD_SUBMIT"
  from assms(2) [OF this] assms(1)
  show "off_cmd_submit_data + unat (load32 h u off_cmd_submit_transfer_buffer_length) \<le> length u"
    by (simp add: sizeof_usbip_def)
next
  assume "load32 h u off_command = USBIP_RET_SUBMIT"
  from assms(3) [OF this] assms(1)
  show "off_ret_submit_data + unat (load32 h u off_ret_submit_actual_length) \<le> length u"
    by (simp add: sizeof_usbip_def)
qed

lemma host_small_reply_data:
  "take 3 (drop 48 host_small_reply) = [0xab, 0xcd, 0xef]"
  by (simp add: host_small_reply_def)

lemma fmt_02x_examples:
  "fmt_02x 0xab = ''ab''" "fmt_02x 0xcd = ''cd''" "fmt_02x 0xef = ''ef''"
  by (simp_all add: fmt_02x_def digit_lower_def)

text \<open>
  The amended claim C5 at a submit reply with three bytes of data.
\<close>

theorem usbip_dump_in_bounds_witness:
  "length host_small_reply = sizeof_usbip
   \<and> load32 LittleEndian host_small_reply off_command = USBIP_RET_SUBMIT
   \<and> unat (load32 LittleEndian host_small_reply off_ret_submit_actual_length)
        \<le> sizeof_usbip - off_ret_submit_data
   \<and> (\<exists>pre. usbip_dump LittleEndian host_small_reply []
               = Some (pre @ ''\<newline>    abcdef\<newline>  }\<newline>}\<newline>''))"
  using usbip_dump_in_bounds [of host_small_reply LittleEndian "[]"]
  by (simp add: length_examples sizeof_usbip_def host_small_reply_fields command_defs
        host_small_reply_data fmt_02x_examples)



section \<open>Setup-byte labels\<close>

lemma SETUP_masks:
  "SETUP_DIR rt = uint (rt AND 1)" "SETUP_TYP rt = uint (rt AND 3)"
  "SETUP_RCP rt = uint (rt AND 0x1f)"
  by (simp_all add: SETUP_DIR_def SETUP_TYP_def SETUP_RCP_def uint_and)

text \<open>
  Claim C2 at the request type \<^verbatim>\<open>0x80\<close>: the program's direction label is that of
  host-to-device. The macros mask with the shifted constant, so the direction is read from
  bit 0 and the type from bits 1 and 0; only the recipient is read from bits 4 to 0.
\<close>

theorem usbip_setup_request_type_0x80:
  "usbip_setup_dir_str 0x80 = ''H2D''
   \<and> usbip_setup_typ_str 0x80 = ''standard''
   \<and> usbip_setup_rcp_str 0x80 = ''device''
   \<and> usbip_setup_dir_str 0x01 = ''D2H''
   \<and> usbip_setup_typ_str 0x20 = ''standard''
   \<and> usbip_setup_typ_str 0x01 = ''class''
   \<and> SETUP_DIR rt = uint (rt AND 1)
   \<and> SETUP_TYP rt = uint (rt AND 3)
   \<and> SETUP_RCP rt = uint (rt AND 0x1f)"
  by (simp add: usbip_setup_dir_str_def usbip_setup_typ_str_def usbip_setup_rcp_str_def
        SETUP_masks)

text \<open>
  Claim C7. The four label functions are total: every request code and every request type
  byte yields one of the listed labels, values outside the recognised ones yield
  \<open>''<reserved>''\<close>, request code 6 yields \<open>''GET_DESCRIPTOR''\<close> and request code 200
  yields \<open>''<reserved>''\<close>.
\<close>

theorem usbip_setup_str_total:
  "usbip_setup_req_str req
     \<in> {''GET_STATUS'', ''CLEAR_FEATURE'', ''SET_FEATURE'', ''SET_ADDRESS'', ''GET_DESCRIPTOR'',
        ''SET_DESCRIPTOR'', ''GET_CONFIGURATION'', ''SET_CONFIGURATION'', ''GET_INTERFACE'',
        ''SET_INTERFACE'', ''SYNCH_FRAME'', ''<reserved>''}
   \<and> (req \<notin> {0, 1, 3, 5, 6, 7, 8, 9, 10, 11, 12} \<longrightarrow> usbip_setup_req_str req = ''<reserved>'')
   \<and> usbip_setup_req_str 6 = ''GET_DESCRIPTOR''
   \<and> usbip_setup_req_str 200 = ''<reserved>''
   \<and> usbip_setup_dir_str rt \<in> {''D2H'', ''H2D''}
   \<and> usbip_setup_typ_str rt \<in> {''standard'', ''class'', ''vendor'', ''<reserved>''}
   \<and> (SETUP_TYP rt \<notin> {0, 1, 2} \<longrightarrow> usbip_setup_typ_str rt = ''<reserved>'')
   \<and> usbip_setup_rcp_str rt \<in> {''device'', ''interface'', ''endpoint'', ''other'', ''<reserved>''}
   \<and> (SETUP_RCP rt \<notin> {0, 1, 2, 3} \<longrightarrow> usbip_setup_rcp_str rt = ''<reserved>'')"
  by (simp add: usbip_setup_req_str_def usbip_setup_dir_str_def usbip_setup_typ_str_def
        usbip_setup_rcp_str_def Let_def)

text \<open>
  Claim C7 at request code 200 and at a request type byte whose extracted type and
  recipient values are not recognised.
\<close>

theorem usbip_setup_str_total_witness:
  "(200 :: u8) \<notin> {0, 1, 3, 5, 6, 7, 8, 9, 10, 11, 12}
   \<and> usbip_setup_req_str 200 = ''<reserved>''
   \<and> usbip_setup_req_str 6 = ''GET_DESCRIPTOR''
   \<and> SETUP_TYP 0x07 \<notin> {0, 1, 2}
   \<and> usbip_setup_typ_str 0x07 = ''<reserved>''
   \<and> SETUP_RCP 0x07 \<notin> {0, 1, 2, 3}
   \<and> usbip_setup_rcp_str 0x07 = ''<reserved>''"
  using usbip_setup_str_total [of 200 "0x07"]
  by (simp add: SETUP_TYP_def SETUP_RCP_def)



section \<open>Rendering twice\<close>

lemma hex_lines_append:
  "hex_lines i (xs @ ys) = hex_lines i xs @ hex_lines (i + length xs) ys"
  by (induction xs arbitrary: i) simp_all

lemma usbip_dump_same_text:
  assumes "load32 h u off_command = USBIP_CMD_SUBMIT \<Longrightarrow>
           off_cmd_submit_data + unat (load32 h u off_cmd_submit_transfer_buffer_length)
             \<le> length u"
    and "load32 h u off_command = USBIP_RET_SUBMIT \<Longrightarrow>
           off_ret_submit_data + unat (load32 h u off_ret_submit_actual_length) \<le> length u"
  shows "\<exists>t. \<forall>g. usbip_dump h u g = Some (g @ t)"
proof -
  obtain t where t: "usbip_dump h u [] = Some t"
    using usbip_dump_text [OF assms, of "[]"] by auto
  have "usbip_dump h u g = Some (g @ t)" for g
    using usbip_dump_append [of h u g "[]"] t by simp
  then show ?thesis by blast
qed

text \<open>
  Claim C8 fails on the program: for a submit command whose transfer buffer length is 65489
  the hex-dump loop leaves the frame, so the frame does not determine a text, neither for
  one call nor for two in a row.
\<close>

theorem usbip_dump_no_text_past_frame:
  "length host_oversize_submit = sizeof_usbip
   \<and> load32 LittleEndian host_oversize_submit off_command = USBIP_CMD_SUBMIT
   \<and> unat (load32 LittleEndian host_oversize_submit off_cmd_submit_transfer_buffer_length)
        = 65489
   \<and> usbip_dump LittleEndian host_oversize_submit [] = None
   \<and> Option.bind (usbip_dump LittleEndian host_oversize_submit [])
        (usbip_dump LittleEndian host_oversize_submit) = None"
  by (simp add: usbip_dump_def Let_def host_oversize_submit_fields host_submit_lengths
        sizeof_usbip_def command_defs dump_data_out_of_bounds)

text \<open>
  What the last read of that loop meets is the byte that follows the frame in memory. When
  that byte is made part of the list the loop walks, the same frame is dumped with two
  different texts for two different following bytes: the text is not a function of the
  frame alone.
\<close>

lemma usbip_dump_following_byte:
  "take sizeof_usbip (host_oversize_submit @ [0x00]) = host_oversize_submit
   \<and> take sizeof_usbip (host_oversize_submit @ [0xff]) = host_oversize_submit
   \<and> usbip_dump LittleEndian (host_oversize_submit @ [0x00]) []
        \<noteq> usbip_dump LittleEndian (host_oversize_submit @ [0xff]) []"
proof -
  let ?T = "''\<newline>  }\<newline>'' @ ''}\<newline>''"
  have text_of: "\<exists>x. usbip_dump LittleEndian (host_oversize_submit @ [b]) []
                      = Some (x @ fmt_02x b @ ?T)" for b
  proof -
    let ?m = "host_oversize_submit @ [b]"
    have cmd: "load32 LittleEndian ?m 0 = 1"
      and len: "unat (load32 LittleEndian ?m 24) = 65489"
      by (simp_all add: load32_def host_oversize_submit_def word32_def nth_append)
    have data: "take 65489 (drop 48 ?m) = drop 48 host_oversize_submit @ [b]"
      by (simp add: host_submit_lengths)
    have "length (drop 48 host_oversize_submit) = 65488"
      by (simp add: host_submit_lengths)
    then have hex: "hex_lines 0 (take 65489 (drop 48 ?m))
                = hex_lines 0 (drop 48 host_oversize_submit) @ fmt_02x b"
      by (simp add: data hex_lines_append)
    obtain pre where "usbip_dump LittleEndian ?m []
        = Some (pre @ (hex_lines 0 (take 65489 (drop 48 ?m)) @ ''\<newline>  }\<newline>'')
                @ ''}\<newline>'')"
      using usbip_dump_text [of LittleEndian ?m "[]"]
      by (auto simp: cmd len command_defs host_submit_lengths)
    then have "usbip_dump LittleEndian ?m []
        = Some ((pre @ hex_lines 0 (drop 48 host_oversize_submit)) @ fmt_02x b @ ?T)"
      by (simp only: hex append_assoc)
    then show ?thesis by blast
  qed
  obtain x0 where x0: "usbip_dump LittleEndian (host_oversize_submit @ [0x00]) []
                         = Some (x0 @ fmt_02x 0x00 @ ?T)"
    using text_of [of "0x00"] by blast
  obtain x1 where x1: "usbip_dump LittleEndian (host_oversize_submit @ [0xff]) []
                         = Some (x1 @ fmt_02x 0xff @ ?T)"
    using text_of [of "0xff"] by blast
  have "x0 @ fmt_02x 0x00 @ ?T \<noteq> x1 @ fmt_02x 0xff @ ?T"
  proof
    assume "x0 @ fmt_02x 0x00 @ ?T = x1 @ fmt_02x 0xff @ ?T"
    moreover have "length (fmt_02x 0x00 @ ?T) = length (fmt_02x 0xff @ ?T)"
      by (simp add: fmt_02x_def)
    ultimately have "fmt_02x 0x00 @ ?T = fmt_02x 0xff @ ?T"
      by (metis append_eq_append_conv)
    then show False by (simp add: fmt_02x_def digit_lower_def)
  qed
  with x0 x1 show ?thesis
    by (simp add: host_submit_lengths sizeof_usbip_def)
qed

text \<open>
  Claim C8 as amended. For every frame whose declared length, when it is a submit command
  or a submit reply, is at most the 65488 bytes that follow the fixed fields, the frame
  alone determines one text: every call of \<open>usbip_dump\<close> appends it, whatever the stream
  already holds, and two calls in a row on the same frame append it twice.
\<close>

theorem usbip_dump_deterministic_in_bounds:
  assumes "length u = sizeof_usbip"
    and "load32 h u off_command = USBIP_CMD_SUBMIT \<Longrightarrow>
           unat (load32 h u off_cmd_submit_transfer_buffer_length)
             \<le> sizeof_usbip - off_cmd_submit_data"
    and "load32 h u off_command = USBIP_RET_SUBMIT \<Longrightarrow>
           unat (load32 h u off_ret_submit_actual_length) \<le> sizeof_usbip - off_ret_submit_data"
  shows "\<exists>t. (\<forall>g. usbip_dump h u g = Some (g @ t))
            \<and> Option.bind (usbip_dump h u f) (usbip_dump h u) = Some (f @ t @ t)"
proof -
  have "\<exists>t. \<forall>g. usbip_dump h u g = Some (g @ t)"
  proof (rule usbip_dump_same_text)
    assume "load32 h u off_command = USBIP_CMD_SUBMIT"
    from assms(2) [OF this] assms(1)
    show "off_cmd_submit_data + unat (load32 h u off_cmd_submit_transfer_buffer_length)
            \<le> length u"
      by (simp add: sizeof_usbip_def)
  next
    assume "load32 h u off_command = USBIP_RET_SUBMIT"
    from assms(3) [OF this] assms(1)
    show "off_ret_submit_data + unat (load32 h u off_ret_submit_actual_length) \<le> length u"
      by (simp add: sizeof_usbip_def)
  qed
  then obtain t where t: "\<And>g. usbip_dump h u g = Some (g @ t)" by blast
  have "Option.bind (usbip_dump h u f) (usbip_dump h u) = Some (f @ t @ t)"
    by (simp add: t)
  with t show ?thesis by blast
qed

text \<open>
  The amended claim C8 at a submit command with two bytes of data on a little-endian host.
\<close>

theorem usbip_dump_deterministic_in_bounds_witness:
  "length host_small_submit = sizeof_usbip
   \<and> load32 LittleEndian host_small_submit off_command = USBIP_CMD_SUBMIT
   \<and> unat (load32 LittleEndian host_small_submit off_cmd_submit_transfer_buffer_length)
        \<le> sizeof_usbip - off_cmd_submit_data
   \<and> (\<exists>t. usbip_dump LittleEndian host_small_submit [] = Some t
          \<and> usbip_dump LittleEndian host_small_submit t = Some (t @ t)
          \<and> Option.bind (usbip_dump LittleEndian host_small_submit [])
               (usbip_dump LittleEndian host_small_submit) = Some (t @ t))"
proof -
  obtain t where t: "\<forall>g. usbip_dump LittleEndian host_small_submit g = Some (g @ t)"
    using usbip_dump_deterministic_in_bounds [of host_small_submit LittleEndian "[]"]
    by (auto simp: host_submit_lengths sizeof_usbip_def host_small_submit_fields command_defs)
  have "usbip_dump LittleEndian host_small_submit [] = Some t"
    and "usbip_dump LittleEndian host_small_submit t = Some (t @ t)"
    using t by simp_all
  then show ?thesis
    by (simp add: host_submit_lengths sizeof_usbip_def host_small_submit_fields command_defs)
qed

end
